theory Spec2Isabelle
  imports Complex_Main
begin

section \<open>JavaScript values\<close>

text \<open>
  The validators of \<open>src/utils/ValidationStrategies.js\<close> receive raw form values.
  A number is \<open>NaN\<close>, an infinity or a finite value; every finite double is a
  rational, so \<open>Fin\<close> ranges over a superset of the finite doubles (\<open>+0\<close> and
  \<open>-0\<close> are both \<open>Fin 0\<close>; no arithmetic on doubles is performed by the code).

  A string is a list of code units; \<open>char\<close> stands for a code unit below 256, so the
  model covers the strings whose code units are all in the Latin-1 range, and
  \<open>length\<close> is the \<open>.length\<close> of such a string.

  \<open>JObj s\<close> is an ordinary object or array: it has no \<open>trim\<close> and no
  \<open>toLowerCase\<close> property, and its default primitive conversion (\<open>toString\<close>)
  returns \<open>s\<close>, as \<open>''[object Object]''\<close> for \<open>{}\<close> and \<open>''''\<close> for \<open>[]\<close>.
  Date objects, wrapper objects, symbols and bigints are not modelled.
\<close>

datatype jsnum = NaN | PosInf | NegInf | Fin rat

datatype jsval =
    JUndefined
  | JNull
  | JBool bool
  | JNum jsnum
  | JStr string
  | JObj string

text \<open>\<open>ToBoolean\<close>, the test behind \<open>if (!value)\<close>.\<close>

fun truthy :: "jsval \<Rightarrow> bool" where
  "truthy JUndefined = False"
| "truthy JNull = False"
| "truthy (JBool b) = b"
| "truthy (JNum NaN) = False"
| "truthy (JNum PosInf) = True"
| "truthy (JNum NegInf) = True"
| "truthy (JNum (Fin q)) = (q \<noteq> 0)"
| "truthy (JStr s) = (s \<noteq> [])"
| "truthy (JObj s) = True"

text \<open>
  Errors are values. \<open>TypeError\<close> is what calling a missing method raises
  (\<open>title.trim is not a function\<close>); \<open>Error\<close> is the one the base class throws.
\<close>

datatype jserror = TypeError | Error string

section \<open>String primitives\<close>

text \<open>
  \<open>String.prototype.trim\<close> removes WhiteSpace and LineTerminator code units from
  both ends. Below 256 these are TAB, LF, VT, FF, CR, SPACE and NO-BREAK SPACE.
\<close>

definition isWhiteSpace :: "char \<Rightarrow> bool" where
  "isWhiteSpace c = (of_char c \<in> {9, 10, 11, 12, 13, 32, 160 :: nat})"

definition trim :: "string \<Rightarrow> string" where
  "trim s = rev (dropWhile isWhiteSpace (rev (dropWhile isWhiteSpace s)))"

text \<open>
  \<open>String.prototype.toLowerCase\<close> on Latin-1 code units: \<open>A\<close>..\<open>Z\<close> and the
  accented capitals 192..222 (without the multiplication sign 215) move up by 32;
  every other code unit below 256 is its own lower case.
\<close>

definition lowerChar :: "char \<Rightarrow> char" where
  "lowerChar c =
     (let n = (of_char c :: nat)
      in if (65 \<le> n \<and> n \<le> 90) \<or> (192 \<le> n \<and> n \<le> 222 \<and> n \<noteq> 215)
         then char_of (n + 32) else c)"

definition toLowerCase :: "string \<Rightarrow> string" where
  "toLowerCase s = map lowerChar s"

text \<open>
  \<open>text.replace(/c/g, r)\<close> for a one-character pattern: every occurrence of \<open>c\<close>
  is replaced by \<open>r\<close>, left to right.
\<close>

fun replaceAll :: "char \<Rightarrow> string \<Rightarrow> string \<Rightarrow> string" where
  "replaceAll c r [] = []"
| "replaceAll c r (x # xs) = (if x = c then r @ replaceAll c r xs else x # replaceAll c r xs)"

text \<open>
  \<open>sanitize\<close> of the title and of the description strategy (the two bodies are the
  same): five replacements, \<open>&\<close> first.
\<close>

definition sanitize :: "string \<Rightarrow> string" where
  "sanitize text =
     replaceAll (CHR 0x27) ''&#x27;''
       (replaceAll (CHR 0x22) ''&quot;''
         (replaceAll CHR ''>'' ''&gt;''
           (replaceAll CHR ''<'' ''&lt;''
             (replaceAll CHR ''&'' ''&amp;'' text))))"

text \<open>
  \<open>containsHtml\<close>: the regular expression \<open><[^>]*>\<close> tested on a fresh regex object
  (so \<open>lastIndex\<close> is 0). \<open>tagRest\<close> matches \<open>[^>]*>\<close> at the start of its argument;
  \<open>containsHtml\<close> tries every start position.
\<close>

fun tagRest :: "string \<Rightarrow> bool" where
  "tagRest [] = False"
| "tagRest (x # xs) = (if x = CHR ''>'' then True else tagRest xs)"

fun containsHtml :: "string \<Rightarrow> bool" where
  "containsHtml [] = False"
| "containsHtml (x # xs) = ((x = CHR ''<'' \<and> tagRest xs) \<or> containsHtml xs)"

text \<open>
  Decimal digits of a natural number and of an integer.
\<close>

definition digitChar :: "nat \<Rightarrow> char" where
  "digitChar d = ''0123456789'' ! d"

fun showNat :: "nat \<Rightarrow> string" where
  "showNat n = (if n < 10 then [digitChar n] else showNat (n div 10) @ [digitChar (n mod 10)])"

declare showNat.simps [simp del]

definition decimalInt :: "int \<Rightarrow> string" where
  "decimalInt i = (if i < 0 then CHR ''-'' # showNat (nat (- i)) else showNat (nat i))"

text \<open>
  Number to string inside a template literal, for a whole number. Up to \<open>2^53\<close> in
  magnitude every whole number is a double and is printed with all its decimal
  digits. Beyond that JavaScript prints the shortest digits that identify the double,
  and from \<open>10^21\<close> the exponent form (\<open>1e+21\<close>); that form is not computed
  here but taken as given, as the function \<open>largeForm\<close>.
\<close>

definition numberToString :: "(int \<Rightarrow> string) \<Rightarrow> int \<Rightarrow> string" where
  "numberToString largeForm i =
     (if \<bar>i\<bar> \<le> 9007199254740992 then decimalInt i else largeForm i)"

section \<open>Field validation results\<close>

text \<open>
  The object every strategy returns. \<open>sanitizedValue = None\<close> is a result without
  that property.
\<close>

record fieldResult =
  isValid :: bool
  errors :: "string list"
  sanitizedValue :: "jsval option"

section \<open>Title and description strategies\<close>

text \<open>The abstract base class: \<open>validate\<close> always throws.\<close>

definition ValidationStrategy_validate :: "jsval \<Rightarrow> jserror + fieldResult" where
  "ValidationStrategy_validate v = Inl (Error ''validate method must be implemented'')"

text \<open>
  \<open>TitleValidationStrategy.validate\<close>, with the instance's \<open>minLength\<close> and
  \<open>maxLength\<close>, which are whole numbers here. Only a string has \<open>trim\<close>: on any
  other truthy value the call \<open>title.trim()\<close> raises \<open>TypeError\<close>.
\<close>

definition titleChecks :: "(int \<Rightarrow> string) \<Rightarrow> int \<Rightarrow> int \<Rightarrow> string \<Rightarrow> string list" where
  "titleChecks largeForm minLength maxLength trimmedTitle =
     (if length trimmedTitle = 0 then [''Title cannot be empty or only whitespace''] else [])
     @ (if int (length trimmedTitle) < minLength
        then [''Title must be at least '' @ numberToString largeForm minLength
                @ '' character(s)''] else [])
     @ (if int (length trimmedTitle) > maxLength
        then [''Title must be no more than '' @ numberToString largeForm maxLength
                @ '' characters''] else [])
     @ (if containsHtml trimmedTitle then [''Title cannot contain HTML tags''] else [])"

definition TitleValidationStrategy_validate ::
    "(int \<Rightarrow> string) \<Rightarrow> int \<Rightarrow> int \<Rightarrow> jsval \<Rightarrow> jserror + fieldResult" where
  "TitleValidationStrategy_validate largeForm minLength maxLength title =
     (if \<not> truthy title
      then Inr \<lparr>isValid = False, errors = [''Title is required''], sanitizedValue = None\<rparr>
      else case title of
          JStr s \<Rightarrow>
            (let trimmedTitle = trim s;
                 errs = titleChecks largeForm minLength maxLength trimmedTitle
             in Inr \<lparr>isValid = (length errs = 0), errors = errs,
                     sanitizedValue = Some (JStr (sanitize trimmedTitle))\<rparr>)
        | _ \<Rightarrow> Inl TypeError)"

definition descriptionChecks :: "(int \<Rightarrow> string) \<Rightarrow> int \<Rightarrow> string \<Rightarrow> string list" where
  "descriptionChecks largeForm maxLength trimmedDescription =
     (if int (length trimmedDescription) > maxLength
      then [''Description must be no more than '' @ numberToString largeForm maxLength
              @ '' characters'']
      else [])
     @ (if containsHtml trimmedDescription then [''Description cannot contain HTML tags'']
        else [])"

definition DescriptionValidationStrategy_validate ::
    "(int \<Rightarrow> string) \<Rightarrow> int \<Rightarrow> jsval \<Rightarrow> jserror + fieldResult" where
  "DescriptionValidationStrategy_validate largeForm maxLength description =
     (if \<not> truthy description
      then Inr \<lparr>isValid = True, errors = [], sanitizedValue = Some (JStr '''')\<rparr>
      else case description of
          JStr s \<Rightarrow>
            (let trimmedDescription = trim s;
                 errs = descriptionChecks largeForm maxLength trimmedDescription
             in Inr \<lparr>isValid = (length errs = 0), errors = errs,
                     sanitizedValue = Some (JStr (sanitize trimmedDescription))\<rparr>)
        | _ \<Rightarrow> Inl TypeError)"

section \<open>Priority strategy\<close>

definition validPriorities :: "string list" where
  "validPriorities = [''high'', ''medium'', ''low'']"

text \<open>\<open>Array.prototype.join\<close> on an array of strings.\<close>

fun join :: "string \<Rightarrow> string list \<Rightarrow> string" where
  "join sep [] = []"
| "join sep [x] = x"
| "join sep (x # y # ys) = x @ sep @ join sep (y # ys)"

definition PriorityValidationStrategy_validate :: "jsval \<Rightarrow> jserror + fieldResult" where
  "PriorityValidationStrategy_validate priority =
     (if \<not> truthy priority
      then Inr \<lparr>isValid = True, errors = [], sanitizedValue = Some (JStr ''medium'')\<rparr>
      else case priority of
          JStr s \<Rightarrow>
            (let normalizedPriority = trim (toLowerCase s);
                 errs = (if \<not> List.member validPriorities normalizedPriority
                         then [''Priority must be one of: '' @ join '', '' validPriorities]
                         else [])
             in Inr \<lparr>isValid = (length errs = 0), errors = errs,
                     sanitizedValue = Some (JStr normalizedPriority)\<rparr>)
        | _ \<Rightarrow> Inl TypeError)"

section \<open>Dates\<close>

text \<open>
  A Date holds a time value: milliseconds since 1970-01-01T00:00:00Z as an integer of
  magnitude at most \<open>8.64 * 10^15\<close>, or \<open>NaN\<close> (here \<open>None\<close>) for an invalid date.

  The host supplies what the code reads from its environment: the clock
  (\<open>nowMs\<close>, the time value of \<open>new Date()\<close>), the offset of local time from UTC in
  minutes (\<open>tzOffsetMin\<close>, positive east of Greenwich; taken as fixed, so daylight
  saving changes are not modelled), and \<open>parseOther\<close>, the result of \<open>Date.parse\<close> on
  every string that is not a calendar date written \<open>YYYY-MM-DD\<close> (the other ISO forms
  and the implementation-defined fallback formats).
\<close>

record host =
  nowMs :: int
  tzOffsetMin :: int
  parseOther :: "string \<Rightarrow> int option"

definition msPerDay :: int where
  "msPerDay = 86400000"

definition timeClip :: "int \<Rightarrow> int option" where
  "timeClip t = (if \<bar>t\<bar> \<le> 8640000000000000 then Some t else None)"

text \<open>Days since the epoch of a proleptic Gregorian date, and back.\<close>

definition daysFromCivil :: "int \<Rightarrow> int \<Rightarrow> int \<Rightarrow> int" where
  "daysFromCivil y m d =
     (let y' = (if m \<le> 2 then y - 1 else y);
          era = y' div 400;
          yoe = y' - era * 400;
          doy = (153 * (if m > 2 then m - 3 else m + 9) + 2) div 5 + d - 1;
          doe = yoe * 365 + yoe div 4 - yoe div 100 + doy
      in era * 146097 + doe - 719468)"

definition civilFromDays :: "int \<Rightarrow> int \<times> int \<times> int" where
  "civilFromDays z =
     (let z' = z + 719468;
          era = z' div 146097;
          doe = z' - era * 146097;
          yoe = (doe - doe div 1460 + doe div 36524 - doe div 146096) div 365;
          y = yoe + era * 400;
          doy = doe - (365 * yoe + yoe div 4 - yoe div 100);
          mp = (5 * doy + 2) div 153;
          d = doy - (153 * mp + 2) div 5 + 1;
          m = (if mp < 10 then mp + 3 else mp - 9)
      in (if m \<le> 2 then y + 1 else y, m, d))"

definition isLeapYear :: "int \<Rightarrow> bool" where
  "isLeapYear y = (y mod 4 = 0 \<and> (y mod 100 \<noteq> 0 \<or> y mod 400 = 0))"

definition daysInMonth :: "int \<Rightarrow> int \<Rightarrow> int" where
  "daysInMonth y m =
     (if m = 2 then (if isLeapYear y then 29 else 28)
      else if m = 4 \<or> m = 6 \<or> m = 9 \<or> m = 11 then 30 else 31)"

definition digitVal :: "char \<Rightarrow> int option" where
  "digitVal c =
     (let n = (of_char c :: nat) in if 48 \<le> n \<and> n \<le> 57 then Some (int n - 48) else None)"

fun digitsVal :: "string \<Rightarrow> int \<Rightarrow> int option" where
  "digitsVal [] acc = Some acc"
| "digitsVal (c # cs) acc =
     (case digitVal c of None \<Rightarrow> None | Some d \<Rightarrow> digitsVal cs (10 * acc + d))"

text \<open>
  The date-only form \<open>YYYY-MM-DD\<close> of the ECMAScript date-time string format, for a
  date that exists in the calendar: it is read as midnight UTC of that day.
\<close>

definition parseIsoDate :: "string \<Rightarrow> int option" where
  "parseIsoDate s =
     (if length s = 10 \<and> s ! 4 = CHR ''-'' \<and> s ! 7 = CHR ''-''
      then (case (digitsVal (take 4 s) 0, digitsVal (take 2 (drop 5 s)) 0,
                  digitsVal (drop 8 s) 0) of
              (Some y, Some m, Some d) \<Rightarrow>
                (if 1 \<le> m \<and> m \<le> 12 \<and> 1 \<le> d \<and> d \<le> daysInMonth y m
                 then Some (daysFromCivil y m d * msPerDay) else None)
            | _ \<Rightarrow> None)
      else None)"

definition Date_parse :: "host \<Rightarrow> string \<Rightarrow> int option" where
  "Date_parse h s =
     (case parseIsoDate s of
        Some t \<Rightarrow> Some t
      | None \<Rightarrow> (case parseOther h s of None \<Rightarrow> None | Some t \<Rightarrow> timeClip t))"

text \<open>
  \<open>new Date(value)\<close>: a string is parsed; an ordinary object is converted to its
  primitive string and parsed; anything else is converted to a number, which is
  clipped and truncated towards zero.
\<close>

definition truncate :: "rat \<Rightarrow> int" where
  "truncate q = (if q \<ge> 0 then \<lfloor>q\<rfloor> else \<lceil>q\<rceil>)"

fun newDate :: "host \<Rightarrow> jsval \<Rightarrow> int option" where
  "newDate h (JStr s) = Date_parse h s"
| "newDate h (JObj s) = Date_parse h s"
| "newDate h (JNum (Fin q)) = (if \<bar>q\<bar> > 8640000000000000 then None else Some (truncate q))"
| "newDate h (JNum _) = None"
| "newDate h (JBool b) = Some (if b then 1 else 0)"
| "newDate h JNull = Some 0"
| "newDate h JUndefined = None"

text \<open>
  \<open>now.setHours(0, 0, 0, 0)\<close>: the start of the local day that contains \<open>t\<close>.
\<close>

definition setHours0 :: "host \<Rightarrow> int \<Rightarrow> int option" where
  "setHours0 h t =
     (let offsetMs = tzOffsetMin h * 60000;
          localT = t + offsetMs;
          localMidnight = (localT div msPerDay) * msPerDay
      in timeClip (localMidnight - offsetMs))"

text \<open>\<open>Date.prototype.toISOString\<close> of a valid time value.\<close>

definition pad :: "nat \<Rightarrow> nat \<Rightarrow> string" where
  "pad w n = replicate (w - length (showNat n)) CHR ''0'' @ showNat n"

definition isoYear :: "int \<Rightarrow> string" where
  "isoYear y =
     (if 0 \<le> y \<and> y \<le> 9999 then pad 4 (nat y)
      else (if y < 0 then ''-'' else ''+'') @ pad 6 (nat \<bar>y\<bar>))"

definition toISOString :: "int \<Rightarrow> string" where
  "toISOString t =
     (let (y, m, d) = civilFromDays (t div msPerDay);
          ms = t mod msPerDay
      in isoYear y @ ''-'' @ pad 2 (nat m) @ ''-'' @ pad 2 (nat d) @ ''T''
         @ pad 2 (nat (ms div 3600000)) @ '':'' @ pad 2 (nat ((ms div 60000) mod 60)) @ '':''
         @ pad 2 (nat ((ms div 1000) mod 60)) @ ''.'' @ pad 3 (nat (ms mod 1000)) @ ''Z'')"

text \<open>\<open>s.split('T')[0]\<close>: the part of \<open>s\<close> before its first \<open>T\<close>.\<close>

definition beforeT :: "string \<Rightarrow> string" where
  "beforeT s = takeWhile (\<lambda>c. c \<noteq> CHR ''T'') s"

section \<open>Due-date strategy\<close>

text \<open>
  \<open>date < now\<close> compares the two time values; it is false when \<open>now\<close> is invalid.
\<close>

definition dateBefore :: "int \<Rightarrow> int option \<Rightarrow> bool" where
  "dateBefore date now = (case now of None \<Rightarrow> False | Some n \<Rightarrow> date < n)"

definition DueDateValidationStrategy_validate :: "host \<Rightarrow> jsval \<Rightarrow> jserror + fieldResult" where
  "DueDateValidationStrategy_validate h dueDate =
     (if \<not> truthy dueDate
      then Inr \<lparr>isValid = True, errors = [], sanitizedValue = Some JNull\<rparr>
      else case newDate h dueDate of
          None \<Rightarrow>
            Inr \<lparr>isValid = False, errors = [''Due date must be a valid date''],
                 sanitizedValue = None\<rparr>
        | Some date \<Rightarrow>
            (let now = setHours0 h (nowMs h);
                 errs = (if dateBefore date now
                         then [''Due date must be today or in the future''] else [])
             in Inr \<lparr>isValid = (length errs = 0), errors = errs,
                     sanitizedValue = Some (JStr (beforeT (toISOString date)))\<rparr>))"

section \<open>TaskValidator\<close>

text \<open>
  An input object is the map of its own properties; its prototype is
  \<open>Object.prototype\<close>. Reading a property that the object does not have gives
  \<open>undefined\<close> (\<open>Object.prototype\<close> has none of the four field names). The code never
  enumerates the keys of its input, so their order is not part of the model.

  \<open>updates.hasOwnProperty(k)\<close> looks the method up on the object itself. Without an
  own property of that name it is the inherited method, which tells whether \<open>k\<close> is an
  own key. An own property named \<open>hasOwnProperty\<close> shadows it, and since no value of
  \<open>jsval\<close> can be called, the call raises \<open>TypeError\<close>.

  An object that the code builds and later enumerates with \<open>Object.keys\<close> is an
  association list in insertion order; \<open>setProp\<close> is the assignment \<open>obj[k] = v\<close>.
\<close>

type_synonym jsobject = "string \<rightharpoonup> jsval"

definition getProp :: "jsobject \<Rightarrow> string \<Rightarrow> jsval" where
  "getProp obj k = (case obj k of None \<Rightarrow> JUndefined | Some v \<Rightarrow> v)"

definition isOwnKey :: "jsobject \<Rightarrow> string \<Rightarrow> bool" where
  "isOwnKey obj k = (obj k \<noteq> None)"

definition hasOwnProperty :: "jsobject \<Rightarrow> string \<Rightarrow> jserror + bool" where
  "hasOwnProperty obj k =
     (case obj ''hasOwnProperty'' of
        None \<Rightarrow> Inr (isOwnKey obj k)
      | Some shadow \<Rightarrow> Inl TypeError)"

fun setProp :: "(string \<times> 'a) list \<Rightarrow> string \<Rightarrow> 'a \<Rightarrow> (string \<times> 'a) list" where
  "setProp [] k v = [(k, v)]"
| "setProp ((k', v') # rest) k v =
     (if k' = k then (k, v) # rest else (k', v') # setProp rest k v)"

text \<open>Reading \<open>result.sanitizedValue\<close>: \<open>undefined\<close> when the property is missing.\<close>

definition readSanitizedValue :: "fieldResult \<Rightarrow> jsval" where
  "readSanitizedValue r = (case sanitizedValue r of None \<Rightarrow> JUndefined | Some v \<Rightarrow> v)"

text \<open>
  The aggregate result. Its \<open>isValid\<close> and \<open>errors\<close> properties are the fields
  \<open>allValid\<close> and \<open>allErrors\<close> here (the source's local \<open>allErrors\<close>).
\<close>

record taskResult =
  allValid :: bool
  allErrors :: "string list"
  fieldResults :: "(string \<times> fieldResult) list"
  sanitizedData :: "(string \<times> jsval) list"

text \<open>
  The constructor's four strategies, with their default bounds. The bounds 1, 100 and
  500 are printed with their digits, so the form of large numbers is never asked for
  and the function given for it here is not used.
\<close>

definition titleValidator :: "jsval \<Rightarrow> jserror + fieldResult" where
  "titleValidator = TitleValidationStrategy_validate (\<lambda>i. []) 1 100"

definition descriptionValidator :: "jsval \<Rightarrow> jserror + fieldResult" where
  "descriptionValidator = DescriptionValidationStrategy_validate (\<lambda>i. []) 500"

definition priorityValidator :: "jsval \<Rightarrow> jserror + fieldResult" where
  "priorityValidator = PriorityValidationStrategy_validate"

definition dueDateValidator :: "host \<Rightarrow> jsval \<Rightarrow> jserror + fieldResult" where
  "dueDateValidator h = DueDateValidationStrategy_validate h"

text \<open>The two \<open>forEach\<close> loops of \<open>validateTask\<close>, each with its accumulator.\<close>

fun pushErrors :: "(string \<times> fieldResult) list \<Rightarrow> string list \<Rightarrow> string list" where
  "pushErrors [] allErrs = allErrs"
| "pushErrors ((field, r) # rest) allErrs =
     pushErrors rest
       (if \<not> isValid r then allErrs @ map (\<lambda>error. field @ '': '' @ error) (errors r)
        else allErrs)"

fun putSanitized ::
    "(string \<times> fieldResult) list \<Rightarrow> (string \<times> jsval) list \<Rightarrow> (string \<times> jsval) list" where
  "putSanitized [] data = data"
| "putSanitized ((field, r) # rest) data =
     putSanitized rest (if isValid r then setProp data field (readSanitizedValue r) else data)"

definition validateTask :: "host \<Rightarrow> jsobject \<Rightarrow> jserror + taskResult" where
  "validateTask h taskData =
     (case titleValidator (getProp taskData ''title'') of
        Inl e \<Rightarrow> Inl e
      | Inr rTitle \<Rightarrow>
     (case descriptionValidator (getProp taskData ''description'') of
        Inl e \<Rightarrow> Inl e
      | Inr rDescription \<Rightarrow>
     (case priorityValidator (getProp taskData ''priority'') of
        Inl e \<Rightarrow> Inl e
      | Inr rPriority \<Rightarrow>
     (case dueDateValidator h (getProp taskData ''dueDate'') of
        Inl e \<Rightarrow> Inl e
      | Inr rDueDate \<Rightarrow>
          (let results = [(''title'', rTitle), (''description'', rDescription),
                          (''priority'', rPriority), (''dueDate'', rDueDate)];
               allErrs = pushErrors results [];
               data = putSanitized results []
           in Inr \<lparr>allValid = (length allErrs = 0), allErrors = allErrs,
                   fieldResults = results, sanitizedData = data\<rparr>)))))"

text \<open>
  \<open>validateTaskUpdate\<close>: one guarded assignment per field, then a single loop that
  fills both accumulators.
\<close>

definition validateIfOwn ::
    "jsobject \<Rightarrow> string \<Rightarrow> (jsval \<Rightarrow> jserror + fieldResult) \<Rightarrow>
     (string \<times> fieldResult) list \<Rightarrow> jserror + (string \<times> fieldResult) list" where
  "validateIfOwn updates field validator results =
     (case hasOwnProperty updates field of
        Inl e \<Rightarrow> Inl e
      | Inr present \<Rightarrow>
          (if present
           then (case validator (getProp updates field) of
                   Inl e \<Rightarrow> Inl e
                 | Inr r \<Rightarrow> Inr (setProp results field r))
           else Inr results))"

fun collectUpdate ::
    "(string \<times> fieldResult) list \<Rightarrow> string list \<times> (string \<times> jsval) list \<Rightarrow>
     string list \<times> (string \<times> jsval) list" where
  "collectUpdate [] acc = acc"
| "collectUpdate ((field, r) # rest) (allErrs, data) =
     collectUpdate rest
       (if \<not> isValid r
        then (allErrs @ map (\<lambda>error. field @ '': '' @ error) (errors r), data)
        else (allErrs, setProp data field (readSanitizedValue r)))"

definition validateTaskUpdate :: "host \<Rightarrow> jsobject \<Rightarrow> jserror + taskResult" where
  "validateTaskUpdate h updates =
     (case validateIfOwn updates ''title'' titleValidator [] of
        Inl e \<Rightarrow> Inl e
      | Inr results1 \<Rightarrow>
     (case validateIfOwn updates ''description'' descriptionValidator results1 of
        Inl e \<Rightarrow> Inl e
      | Inr results2 \<Rightarrow>
     (case validateIfOwn updates ''priority'' priorityValidator results2 of
        Inl e \<Rightarrow> Inl e
      | Inr results3 \<Rightarrow>
     (case validateIfOwn updates ''dueDate'' (dueDateValidator h) results3 of
        Inl e \<Rightarrow> Inl e
      | Inr results \<Rightarrow>
          (let (allErrs, data) = collectUpdate results ([], [])
           in Inr \<lparr>allValid = (length allErrs = 0), allErrors = allErrs,
                   fieldResults = results, sanitizedData = data\<rparr>)))))"

section \<open>RealTimeValidator\<close>

text \<open>
  The validator runs in a browser: \<open>setTimeout\<close> returns a positive integer that is
  never handed out twice, \<open>clearTimeout\<close> of anything that is not the handle of a
  pending timer does nothing, and a timer that is due runs its closure once. Timers
  run in the order of their due times, and in the order they were set when these are
  equal. The clock of the timers is the clock of the host (\<open>nowMs\<close>); \<open>advance\<close> lets
  time pass and runs each due timer at its due time.

  A timer's closure holds \<open>fieldName\<close>, \<open>value\<close> and \<open>callback\<close>. A callback is known
  by a number; invoking it is recorded in \<open>calls\<close>, and it is assumed not to call the
  validator or the timers itself.

  A \<open>delay\<close> is a whole number of milliseconds. \<open>setTimeout\<close> reads it as a 32-bit
  signed integer (it wraps modulo \<open>2^32\<close>) and takes a negative result as 0, so a
  delay of \<open>2^31\<close> or more does not wait that long: 3000000000 fires at once.
\<close>

record timer =
  tid :: nat
  due :: int
  tField :: string
  tValue :: jsval
  tCallback :: nat

record world =
  env :: host
  debounceTimers :: "(string \<times> nat) list"
  pending :: "timer list"
  nextId :: nat
  calls :: "(nat \<times> string \<times> fieldResult) list"

definition newRealTimeValidator :: "host \<Rightarrow> world" where
  "newRealTimeValidator h =
     \<lparr>env = h, debounceTimers = [], pending = [], nextId = 1, calls = []\<rparr>"

definition clearTimeout :: "world \<Rightarrow> nat \<Rightarrow> world" where
  "clearTimeout w i = w\<lparr>pending := filter (\<lambda>t. tid t \<noteq> i) (pending w)\<rparr>"

definition timeoutOf :: "int \<Rightarrow> int" where
  "timeoutOf delay =
     (let m = delay mod 4294967296;
          signed = (if m \<ge> 2147483648 then m - 4294967296 else m)
      in if signed < 0 then 0 else signed)"

definition setTimeout :: "world \<Rightarrow> string \<Rightarrow> jsval \<Rightarrow> nat \<Rightarrow> int \<Rightarrow> nat \<times> world" where
  "setTimeout w fieldName val callback delay =
     (nextId w,
      w\<lparr>pending := pending w @
            [\<lparr>tid = nextId w, due = nowMs (env w) + timeoutOf delay, tField = fieldName,
              tValue = val, tCallback = callback\<rparr>],
        nextId := Suc (nextId w)\<rparr>)"

text \<open>
  \<open>this.debounceTimers\<close> is a plain object used as a dictionary. Reading a name that
  is not an own property gives \<open>undefined\<close> or a value inherited from
  \<open>Object.prototype\<close>, neither of which is the handle of a timer. Assigning a number
  to the name \<open>__proto__\<close> goes to the inherited setter, which ignores it, so no own
  property is created.
\<close>

definition readTimer :: "(string \<times> nat) list \<Rightarrow> string \<Rightarrow> nat option" where
  "readTimer store fieldName = map_of store fieldName"

definition writeTimer :: "(string \<times> nat) list \<Rightarrow> string \<Rightarrow> nat \<Rightarrow> (string \<times> nat) list" where
  "writeTimer store fieldName i =
     (if fieldName = ''__proto__'' then store else setProp store fieldName i)"

definition validateField :: "world \<Rightarrow> string \<Rightarrow> jsval \<Rightarrow> nat \<Rightarrow> int \<Rightarrow> world" where
  "validateField w fieldName val callback delay =
     (let w1 = (case readTimer (debounceTimers w) fieldName of
                  None \<Rightarrow> w
                | Some i \<Rightarrow> (if i \<noteq> 0 then clearTimeout w i else w));
          (i, w2) = setTimeout w1 fieldName val callback delay
      in w2\<lparr>debounceTimers := writeTimer (debounceTimers w2) fieldName i\<rparr>)"

text \<open>The \<open>switch\<close> inside the timer's closure.\<close>

definition dispatch :: "host \<Rightarrow> string \<Rightarrow> jsval \<Rightarrow> jserror + fieldResult" where
  "dispatch h fieldName val =
     (if fieldName = ''title'' then titleValidator val
      else if fieldName = ''description'' then descriptionValidator val
      else if fieldName = ''priority'' then priorityValidator val
      else if fieldName = ''dueDate'' then dueDateValidator h val
      else Inr \<lparr>isValid = True, errors = [], sanitizedValue = None\<rparr>)"

text \<open>
  Running a timer's closure: when the field's validator raises, the exception leaves
  the closure before \<open>callback\<close> is reached.
\<close>

definition fire :: "world \<Rightarrow> timer \<Rightarrow> world" where
  "fire w t =
     (case dispatch (env w) (tField t) (tValue t) of
        Inl e \<Rightarrow> w
      | Inr r \<Rightarrow> w\<lparr>calls := calls w @ [(tCallback t, tField t, r)]\<rparr>)"

definition fireAt :: "world \<Rightarrow> timer \<Rightarrow> world" where
  "fireAt w t = fire (w\<lparr>env := (env w)\<lparr>nowMs := due t\<rparr>\<rparr>) t"

definition advance :: "world \<Rightarrow> nat \<Rightarrow> world" where
  "advance w dt =
     (let now' = nowMs (env w) + int dt;
          dueTimers = sort_key due (filter (\<lambda>t. due t \<le> now') (pending w));
          w1 = w\<lparr>pending := filter (\<lambda>t. \<not> due t \<le> now') (pending w)\<rparr>;
          w2 = foldl fireAt w1 dueTimers
      in w2\<lparr>env := (env w2)\<lparr>nowMs := now'\<rparr>\<rparr>)"

text \<open>\<open>clearTimers\<close>: every stored handle is cleared and the dictionary is emptied.\<close>

definition clearTimers :: "world \<Rightarrow> world" where
  "clearTimers w = (foldl clearTimeout w (map snd (debounceTimers w)))\<lparr>debounceTimers := []\<rparr>"

text \<open>
  What happens to a validator over time: calls of \<open>validateField\<close>, calls of
  \<open>clearTimers\<close>, and stretches of time in which nothing is called.
\<close>

datatype event = Call string jsval nat int | ClearTimers | Wait nat

fun run :: "world \<Rightarrow> event list \<Rightarrow> world" where
  "run w [] = w"
| "run w (Call fieldName val callback delay # rest) =
     run (validateField w fieldName val callback delay) rest"
| "run w (ClearTimers # rest) = run (clearTimers w) rest"
| "run w (Wait dt # rest) = run (advance w dt) rest"

section \<open>Values that have the string methods\<close>

text \<open>
  \<open>trim\<close> and \<open>toLowerCase\<close> exist on strings only; a falsy value never reaches the
  call. These are the values on which the three text validators can run.
\<close>

fun isString :: "jsval \<Rightarrow> bool" where
  "isString (JStr s) = True"
| "isString v = False"

definition stringOrFalsy :: "jsval \<Rightarrow> bool" where
  "stringOrFalsy v = (isString v \<or> \<not> truthy v)"

section \<open>The aggregate result as the specification words it\<close>

text \<open>
  The errors a field contributes to the aggregate result, in the specification's
  words: the error strings of a failing field, each prefixed \<open><fieldName>: \<close>, in the
  field's own order; a field that is valid contributes nothing. \<open>specErrors\<close>
  concatenates them over the field results in their order, \<open>specSanitized\<close> keeps the
  sanitized value of each field that is valid.
\<close>

definition prefixedErrors :: "string \<times> fieldResult \<Rightarrow> string list" where
  "prefixedErrors p =
     (if isValid (snd p) then [] else map (\<lambda>message. fst p @ '': '' @ message) (errors (snd p)))"

definition specErrors :: "(string \<times> fieldResult) list \<Rightarrow> string list" where
  "specErrors results = concat (map prefixedErrors results)"

definition specSanitized :: "(string \<times> fieldResult) list \<Rightarrow> (string \<times> jsval) list" where
  "specSanitized results =
     map (\<lambda>p. (fst p, readSanitizedValue (snd p))) (filter (\<lambda>p. isValid (snd p)) results)"

section \<open>Debouncing as the specification words it\<close>

text \<open>
  What a timer contributes to the log when it runs on host \<open>h\<close> at its due time: one
  invocation of its callback with the field's validation result, or nothing when
  the validator raises.
\<close>

definition outcome :: "host \<Rightarrow> timer \<Rightarrow> (nat \<times> string \<times> fieldResult) list" where
  "outcome h t =
     (case dispatch (h\<lparr>nowMs := due t\<rparr>) (tField t) (tValue t) of
        Inl e \<Rightarrow> []
      | Inr r \<Rightarrow> [(tCallback t, tField t, r)])"

text \<open>The invocations in a log that are for one field.\<close>

definition callsFor :: "string \<Rightarrow> (nat \<times> string \<times> fieldResult) list
    \<Rightarrow> (nat \<times> string \<times> fieldResult) list" where
  "callsFor fieldName entries = filter (\<lambda>c. fst (snd c) = fieldName) entries"

text \<open>
  \<open>quietFor f events\<close>: no call in \<open>events\<close> is for field \<open>f\<close>, and none is a
  call of \<open>clearTimers\<close>.
  \<open>elapses remaining events\<close>: some stretch of time in \<open>events\<close> reaches the moment
  that lies \<open>remaining\<close> milliseconds ahead.
\<close>

fun quietFor :: "string \<Rightarrow> event list \<Rightarrow> bool" where
  "quietFor f [] = True"
| "quietFor f (Call fieldName val callback delay # rest) = (fieldName \<noteq> f \<and> quietFor f rest)"
| "quietFor f (ClearTimers # rest) = False"
| "quietFor f (Wait dt # rest) = quietFor f rest"

fun elapses :: "int \<Rightarrow> event list \<Rightarrow> bool" where
  "elapses remaining [] = False"
| "elapses remaining (Call fieldName val callback delay # rest) = elapses remaining rest"
| "elapses remaining (ClearTimers # rest) = elapses remaining rest"
| "elapses remaining (Wait dt # rest) =
     (remaining \<le> int dt \<or> elapses (remaining - int dt) rest)"

text \<open>
  What holds of every state a validator can reach: handles are positive, below the
  next one and never shared; a pending timer of a field other than \<open>__proto__\<close> is
  the one whose handle is stored for that field; a stored handle belongs to no timer
  of another field; nothing is ever stored for \<open>__proto__\<close>.
\<close>

definition consistent :: "world \<Rightarrow> bool" where
  "consistent w =
     (nextId w \<noteq> 0
      \<and> (\<forall>t \<in> set (pending w). tid t \<noteq> 0 \<and> tid t < nextId w)
      \<and> distinct (map tid (pending w))
      \<and> (\<forall>t \<in> set (pending w). tField t \<noteq> ''__proto__'' \<longrightarrow>
            readTimer (debounceTimers w) (tField t) = Some (tid t))
      \<and> (\<forall>g i. readTimer (debounceTimers w) g = Some i \<longrightarrow>
            i < nextId w \<and> (\<forall>t \<in> set (pending w). tid t = i \<longrightarrow> tField t = g))
      \<and> readTimer (debounceTimers w) ''__proto__'' = None)"

section \<open>Example hosts\<close>

text \<open>
  Two hosts for the worked examples, both at noon local time on 2024-01-01 and with a
  \<open>Date.parse\<close> that accepts nothing beyond \<open>YYYY-MM-DD\<close>: one in the UTC zone, one
  five hours west of it (UTC-05:00), where noon is 17:00 UTC.
\<close>

definition hostUtc :: host where
  "hostUtc = \<lparr>nowMs = 1704110400000, tzOffsetMin = 0, parseOther = (\<lambda>s. None)\<rparr>"

definition hostWest :: host where
  "hostWest = \<lparr>nowMs = 1704128400000, tzOffsetMin = - 300, parseOther = (\<lambda>s. None)\<rparr>"

section \<open>Absent values\<close>

lemma falsy_cases:
  "(\<not> truthy v) = (v \<in> {JNull, JUndefined, JStr '''', JNum (Fin 0), JBool False, JNum NaN})"
  by (cases v rule: truthy.cases) auto

text \<open>
  C10. Every field validator tests for an absent value by falsiness. The falsy values
  are exactly \<open>null\<close>, \<open>undefined\<close>, the empty string, \<open>0\<close>, \<open>false\<close> and \<open>NaN\<close>, and on
  each of them the title validator returns \<open>isValid\<close> false with the single error
  \<open>Title is required\<close> and no \<open>sanitizedValue\<close>, the description validator returns a
  valid result with \<open>sanitizedValue\<close> \<open>""\<close>, the priority validator a valid result
  with \<open>"medium"\<close>, and the due-date validator a valid result with \<open>null\<close>.
\<close>

theorem falsy_takes_absent_branch:
  "(\<not> truthy v) = (v \<in> {JNull, JUndefined, JStr '''', JNum (Fin 0), JBool False, JNum NaN})
   \<and> (\<not> truthy v \<longrightarrow>
        TitleValidationStrategy_validate largeForm minLength maxLength v =
          Inr \<lparr>isValid = False, errors = [''Title is required''], sanitizedValue = None\<rparr>
        \<and> DescriptionValidationStrategy_validate largeForm' maxLength' v =
          Inr \<lparr>isValid = True, errors = [], sanitizedValue = Some (JStr '''')\<rparr>
        \<and> PriorityValidationStrategy_validate v =
          Inr \<lparr>isValid = True, errors = [], sanitizedValue = Some (JStr ''medium'')\<rparr>
        \<and> DueDateValidationStrategy_validate h v =
          Inr \<lparr>isValid = True, errors = [], sanitizedValue = Some JNull\<rparr>)"
  by (simp add: falsy_cases [symmetric] TitleValidationStrategy_validate_def
      DescriptionValidationStrategy_validate_def PriorityValidationStrategy_validate_def
      DueDateValidationStrategy_validate_def del: insert_iff)

theorem falsy_takes_absent_branch_witness:
  "\<not> truthy (JNum (Fin 0))
   \<and> TitleValidationStrategy_validate (\<lambda>i. []) 1 100 (JNum (Fin 0)) =
       Inr \<lparr>isValid = False, errors = [''Title is required''], sanitizedValue = None\<rparr>
   \<and> DescriptionValidationStrategy_validate (\<lambda>i. []) 500 (JNum (Fin 0)) =
       Inr \<lparr>isValid = True, errors = [], sanitizedValue = Some (JStr '''')\<rparr>
   \<and> PriorityValidationStrategy_validate (JNum (Fin 0)) =
       Inr \<lparr>isValid = True, errors = [], sanitizedValue = Some (JStr ''medium'')\<rparr>
   \<and> DueDateValidationStrategy_validate hostUtc (JNum (Fin 0)) =
       Inr \<lparr>isValid = True, errors = [], sanitizedValue = Some JNull\<rparr>"
  using falsy_takes_absent_branch [of "JNum (Fin 0)" "\<lambda>i. []" 1 100 "\<lambda>i. []" 500 hostUtc]
  by simp

section \<open>Whitespace-only titles\<close>

lemma trim_all_whitespace:
  assumes "\<forall>c\<in>set s. isWhiteSpace c"
  shows "trim s = []"
proof -
  from assms have "dropWhile isWhiteSpace s = []" by simp
  then show ?thesis by (simp add: trim_def del: dropWhile_eq_Nil_conv)
qed

lemma sanitize_Nil: "sanitize [] = []"
  by (simp add: sanitize_def)

lemma numberToString_safe:
  "\<bar>i\<bar> \<le> 9007199254740992 \<Longrightarrow> numberToString largeForm i = decimalInt i"
  by (simp add: numberToString_def)

text \<open>
  C2, as stated, fails: on three spaces the title validator of the task validator
  (\<open>minLength\<close> 1) returns two errors, because the minimum-length check also fires on
  the empty trimmed string.
\<close>

theorem title_three_spaces_two_errors:
  "titleValidator (JStr ''   '') =
     Inr \<lparr>isValid = False,
          errors = [''Title cannot be empty or only whitespace'',
                    ''Title must be at least 1 character(s)''],
          sanitizedValue = Some (JStr '''')\<rparr>
   \<and> \<not> (\<exists>r. titleValidator (JStr ''   '') = Inr r
            \<and> errors r = [''Title cannot be empty or only whitespace''])"
  by (simp add: titleValidator_def TitleValidationStrategy_validate_def titleChecks_def trim_def
      isWhiteSpace_def sanitize_def numberToString_def decimalInt_def showNat.simps digitChar_def)

text \<open>
  C2, amended. For every non-empty title made of whitespace only, and a title
  validator whose bounds are whole numbers, \<open>maxLength\<close> not negative and \<open>minLength\<close>
  at most \<open>2^53\<close>, the errors are \<open>Title cannot be empty or only whitespace\<close>
  followed, when \<open>minLength\<close> is positive, by \<open>Title must be at least minLength
  character(s)\<close> with \<open>minLength\<close> in decimal digits, and nothing else: the maximum
  length and the HTML checks do not fire. The result is invalid and its
  \<open>sanitizedValue\<close> is the empty string. For the title validator of the task
  validator (\<open>minLength\<close> 1, \<open>maxLength\<close> 100) these are exactly the two errors
  \<open>Title cannot be empty or only whitespace\<close> and
  \<open>Title must be at least 1 character(s)\<close>.
\<close>

theorem title_whitespace_only:
  assumes "s \<noteq> []" and "\<forall>c\<in>set s. isWhiteSpace c"
    and "0 \<le> maxLength" and "minLength \<le> 9007199254740992"
  shows "TitleValidationStrategy_validate largeForm minLength maxLength (JStr s) =
     Inr \<lparr>isValid = False,
          errors = ''Title cannot be empty or only whitespace'' #
            (if 0 < minLength
             then [''Title must be at least '' @ decimalInt minLength @ '' character(s)'']
             else []),
          sanitizedValue = Some (JStr '''')\<rparr>
    \<and> titleValidator (JStr s) =
     Inr \<lparr>isValid = False,
          errors = [''Title cannot be empty or only whitespace'',
                    ''Title must be at least 1 character(s)''],
          sanitizedValue = Some (JStr '''')\<rparr>"
proof -
  have general: "TitleValidationStrategy_validate largeForm' minLength' maxLength' (JStr s) =
     Inr \<lparr>isValid = False,
          errors = ''Title cannot be empty or only whitespace'' #
            (if 0 < minLength'
             then [''Title must be at least '' @ decimalInt minLength' @ '' character(s)'']
             else []),
          sanitizedValue = Some (JStr '''')\<rparr>"
    if "0 \<le> maxLength'" and "minLength' \<le> 9007199254740992"
    for largeForm' minLength' maxLength'
    using assms(1,2) that
    by (simp add: TitleValidationStrategy_validate_def trim_all_whitespace titleChecks_def
        sanitize_Nil numberToString_safe)
  have "titleValidator (JStr s) =
     Inr \<lparr>isValid = False,
          errors = [''Title cannot be empty or only whitespace'',
                    ''Title must be at least 1 character(s)''],
          sanitizedValue = Some (JStr '''')\<rparr>"
    unfolding titleValidator_def
    by (simp add: general decimalInt_def showNat.simps digitChar_def)
  with general [OF assms(3,4)] show ?thesis by simp
qed

theorem title_whitespace_only_witness:
  "''   '' \<noteq> [] \<and> list_all isWhiteSpace ''   '' \<and> (0::int) \<le> 100
   \<and> (1::int) \<le> 9007199254740992
   \<and> TitleValidationStrategy_validate (\<lambda>i. []) 1 100 (JStr ''   '') =
     Inr \<lparr>isValid = False,
          errors = [''Title cannot be empty or only whitespace'',
                    ''Title must be at least 1 character(s)''],
          sanitizedValue = Some (JStr '''')\<rparr>"
  using title_whitespace_only [of "''   ''" 100 1 "\<lambda>i. []"]
  by (simp add: isWhiteSpace_def decimalInt_def showNat.simps digitChar_def)

section \<open>Sanitizing twice\<close>

lemma replaceAll_absent: "c \<notin> set s \<Longrightarrow> replaceAll c r s = s"
  by (induction s) auto

lemma set_replaceAll:
  "set (replaceAll c r s) = (set s - {c}) \<union> (if c \<in> set s then set r else {})"
  by (induction s) auto

lemma length_replaceAll_le: "r \<noteq> [] \<Longrightarrow> length s \<le> length (replaceAll c r s)"
proof (induction s)
  case Nil
  then show ?case by simp
next
  case (Cons x xs)
  from Cons.prems have "1 \<le> length r" by (cases r) auto
  with Cons show ?case by auto
qed

lemma length_replaceAll_less:
  assumes "c \<in> set s" and "2 \<le> length r"
  shows "length s < length (replaceAll c r s)"
  using assms
proof (induction s)
  case Nil
  then show ?case by simp
next
  case (Cons x xs)
  from Cons.prems have r: "r \<noteq> []" by auto
  show ?case
  proof (cases "x = c")
    case True
    with length_replaceAll_le [OF r, of xs c] Cons.prems show ?thesis by simp
  next
    case False
    with Cons show ?thesis by simp
  qed
qed

lemma sanitize_plain:
  assumes "set s \<inter> {CHR ''&'', CHR ''<'', CHR ''>'', CHR 0x22, CHR 0x27} = {}"
  shows "sanitize s = s"
  using assms by (simp add: sanitize_def replaceAll_absent)

lemma sanitize_has_amp:
  assumes "set s \<inter> {CHR ''&'', CHR ''<'', CHR ''>'', CHR 0x22, CHR 0x27} \<noteq> {}"
  shows "CHR ''&'' \<in> set (sanitize s)"
  using assms by (auto simp add: sanitize_def set_replaceAll)

lemma sanitize_longer:
  assumes "CHR ''&'' \<in> set t"
  shows "length t < length (sanitize t)"
proof -
  have "length t < length (replaceAll CHR ''&'' ''&amp;'' t)"
    using assms by (simp add: length_replaceAll_less)
  also have "\<dots> \<le> length (replaceAll CHR ''<'' ''&lt;'' (replaceAll CHR ''&'' ''&amp;'' t))"
    by (simp add: length_replaceAll_le)
  also have "\<dots> \<le> length (replaceAll CHR ''>'' ''&gt;''
      (replaceAll CHR ''<'' ''&lt;'' (replaceAll CHR ''&'' ''&amp;'' t)))"
    by (simp add: length_replaceAll_le)
  also have "\<dots> \<le> length (replaceAll (CHR 0x22) ''&quot;'' (replaceAll CHR ''>'' ''&gt;''
      (replaceAll CHR ''<'' ''&lt;'' (replaceAll CHR ''&'' ''&amp;'' t))))"
    by (simp add: length_replaceAll_le)
  also have "\<dots> \<le> length (sanitize t)"
    unfolding sanitize_def by (simp add: length_replaceAll_le)
  finally show ?thesis .
qed

text \<open>
  C3, as stated, fails: \<open>a&b\<close> is accepted as a title and as a description and has
  no HTML tag, and sanitizing it a second time escapes the \<open>&\<close> of \<open>&amp;\<close> again.
\<close>

theorem sanitize_twice_differs:
  "titleValidator (JStr ''a&b'') =
     Inr \<lparr>isValid = True, errors = [], sanitizedValue = Some (JStr ''a&amp;b'')\<rparr>
   \<and> descriptionValidator (JStr ''a&b'') =
     Inr \<lparr>isValid = True, errors = [], sanitizedValue = Some (JStr ''a&amp;b'')\<rparr>
   \<and> \<not> containsHtml ''a&b''
   \<and> sanitize ''a&b'' = ''a&amp;b''
   \<and> sanitize (sanitize ''a&b'') = ''a&amp;amp;b''
   \<and> sanitize (sanitize ''a&b'') \<noteq> sanitize ''a&b''"
  by (simp add: titleValidator_def descriptionValidator_def TitleValidationStrategy_validate_def
      DescriptionValidationStrategy_validate_def titleChecks_def descriptionChecks_def trim_def
      isWhiteSpace_def sanitize_def)

text \<open>
  C3, amended. For every string \<open>s\<close>, sanitizing twice gives the same as sanitizing
  once exactly when \<open>s\<close> contains none of the five escaped characters
  \<open>&\<close>, \<open><\<close>, \<open>>\<close>, the double quote and the single quote (and then \<open>sanitize\<close>
  leaves \<open>s\<close> unchanged).
\<close>

theorem sanitize_idempotent_iff:
  "(sanitize (sanitize s) = sanitize s)
   = (set s \<inter> {CHR ''&'', CHR ''<'', CHR ''>'', CHR 0x22, CHR 0x27} = {})"
proof
  assume eq: "sanitize (sanitize s) = sanitize s"
  show "set s \<inter> {CHR ''&'', CHR ''<'', CHR ''>'', CHR 0x22, CHR 0x27} = {}"
  proof (rule ccontr)
    assume "set s \<inter> {CHR ''&'', CHR ''<'', CHR ''>'', CHR 0x22, CHR 0x27} \<noteq> {}"
    then have "CHR ''&'' \<in> set (sanitize s)" by (rule sanitize_has_amp)
    then have "length (sanitize s) < length (sanitize (sanitize s))" by (rule sanitize_longer)
    with eq show False by simp
  qed
next
  assume "set s \<inter> {CHR ''&'', CHR ''<'', CHR ''>'', CHR 0x22, CHR 0x27} = {}"
  then have "sanitize s = s" by (rule sanitize_plain)
  then show "sanitize (sanitize s) = sanitize s" by simp
qed

section \<open>Which inputs make a validator raise\<close>

lemma title_returns_iff:
  "(\<exists>r. TitleValidationStrategy_validate largeForm minLength maxLength v = Inr r)
     = stringOrFalsy v"
  by (cases v) (auto simp add: TitleValidationStrategy_validate_def stringOrFalsy_def Let_def)

lemma description_returns_iff:
  "(\<exists>r. DescriptionValidationStrategy_validate largeForm maxLength v = Inr r)
     = stringOrFalsy v"
  by (cases v)
    (auto simp add: DescriptionValidationStrategy_validate_def stringOrFalsy_def Let_def)

lemma priority_returns_iff:
  "(\<exists>r. PriorityValidationStrategy_validate v = Inr r) = stringOrFalsy v"
  by (cases v) (auto simp add: PriorityValidationStrategy_validate_def stringOrFalsy_def Let_def)




lemma dueDate_returns: "\<exists>r. DueDateValidationStrategy_validate h v = Inr r"
  by (simp add: DueDateValidationStrategy_validate_def Let_def split: option.split)

lemma validateTask_returns_iff:
  "(\<exists>r. validateTask h t = Inr r) =
     (stringOrFalsy (getProp t ''title'') \<and> stringOrFalsy (getProp t ''description'')
      \<and> stringOrFalsy (getProp t ''priority''))"
proof -
  obtain rd where rd: "dueDateValidator h (getProp t ''dueDate'') = Inr rd"
    using dueDate_returns [of h "getProp t ''dueDate''"] by (auto simp add: dueDateValidator_def)
  show ?thesis
    using title_returns_iff [of "\<lambda>i. []" 1 100 "getProp t ''title''"]
      description_returns_iff [of "\<lambda>i. []" 500 "getProp t ''description''"]
      priority_returns_iff [of "getProp t ''priority''"] rd
    by (auto simp add: validateTask_def titleValidator_def descriptionValidator_def
        priorityValidator_def Let_def split: sum.splits)
qed

lemma hasOwnProperty_unshadowed:
  "\<not> isOwnKey u ''hasOwnProperty'' \<Longrightarrow> hasOwnProperty u f = Inr (isOwnKey u f)"
  by (simp add: hasOwnProperty_def isOwnKey_def)

lemma hasOwnProperty_shadowed:
  "isOwnKey u ''hasOwnProperty'' \<Longrightarrow> hasOwnProperty u f = Inl TypeError"
  by (auto simp add: hasOwnProperty_def isOwnKey_def)

lemma absent_stringOrFalsy: "\<not> isOwnKey u f \<Longrightarrow> stringOrFalsy (getProp u f)"
  by (simp add: isOwnKey_def getProp_def stringOrFalsy_def)

lemma validateIfOwn_returns_iff:
  assumes "\<And>v. (\<exists>r. validator v = Inr r) = stringOrFalsy v"
  shows "(\<exists>rs'. validateIfOwn u f validator rs = Inr rs')
     = (\<not> isOwnKey u ''hasOwnProperty'' \<and> stringOrFalsy (getProp u f))"
proof (cases "isOwnKey u ''hasOwnProperty''")
  case True
  then show ?thesis by (simp add: validateIfOwn_def hasOwnProperty_shadowed)
next
  case unshadowed: False
  show ?thesis
  proof (cases "isOwnKey u f")
    case True
    with unshadowed assms [of "getProp u f"] show ?thesis
      by (auto simp add: validateIfOwn_def hasOwnProperty_unshadowed split: sum.splits)
  next
    case False
    with unshadowed show ?thesis
      by (simp add: validateIfOwn_def hasOwnProperty_unshadowed absent_stringOrFalsy)
  qed
qed

lemma validateIfOwn_dueDate_returns:
  assumes "\<not> isOwnKey u ''hasOwnProperty''"
  shows "\<exists>rs'. validateIfOwn u f (dueDateValidator h) rs = Inr rs'"
  using dueDate_returns [of h "getProp u f"] assms
  by (auto simp add: validateIfOwn_def dueDateValidator_def hasOwnProperty_unshadowed)


lemma validateTaskUpdate_returns_iff:
  "(\<exists>r. validateTaskUpdate h u = Inr r) =
     (\<not> isOwnKey u ''hasOwnProperty''
      \<and> stringOrFalsy (getProp u ''title'') \<and> stringOrFalsy (getProp u ''description'')
      \<and> stringOrFalsy (getProp u ''priority''))"
proof -
  have t: "\<And>rs. (\<exists>rs'. validateIfOwn u ''title'' titleValidator rs = Inr rs')
      = (\<not> isOwnKey u ''hasOwnProperty'' \<and> stringOrFalsy (getProp u ''title''))"
    by (rule validateIfOwn_returns_iff) (simp add: titleValidator_def title_returns_iff)
  have d: "\<And>rs. (\<exists>rs'. validateIfOwn u ''description'' descriptionValidator rs = Inr rs')
      = (\<not> isOwnKey u ''hasOwnProperty'' \<and> stringOrFalsy (getProp u ''description''))"
    by (rule validateIfOwn_returns_iff)
      (simp add: descriptionValidator_def description_returns_iff)
  have p: "\<And>rs. (\<exists>rs'. validateIfOwn u ''priority'' priorityValidator rs = Inr rs')
      = (\<not> isOwnKey u ''hasOwnProperty'' \<and> stringOrFalsy (getProp u ''priority''))"
    by (rule validateIfOwn_returns_iff) (simp add: priorityValidator_def priority_returns_iff)
  show ?thesis
  proof
    assume "\<exists>r. validateTaskUpdate h u = Inr r"
    then show "\<not> isOwnKey u ''hasOwnProperty''
      \<and> stringOrFalsy (getProp u ''title'') \<and> stringOrFalsy (getProp u ''description'')
      \<and> stringOrFalsy (getProp u ''priority'')"
      using t d p by (auto simp add: validateTaskUpdate_def split: sum.splits)
  next
    assume a: "\<not> isOwnKey u ''hasOwnProperty''
      \<and> stringOrFalsy (getProp u ''title'') \<and> stringOrFalsy (getProp u ''description'')
      \<and> stringOrFalsy (getProp u ''priority'')"
    from a t obtain r1 where r1: "validateIfOwn u ''title'' titleValidator [] = Inr r1"
      by blast
    from a d obtain r2 where r2: "validateIfOwn u ''description'' descriptionValidator r1 = Inr r2"
      by blast
    from a p obtain r3 where r3: "validateIfOwn u ''priority'' priorityValidator r2 = Inr r3"
      by blast
    from a obtain r4 where r4: "validateIfOwn u ''dueDate'' (dueDateValidator h) r3 = Inr r4"
      using validateIfOwn_dueDate_returns by blast
    show "\<exists>r. validateTaskUpdate h u = Inr r"
      by (simp add: validateTaskUpdate_def r1 r2 r3 r4 split: prod.split)
  qed
qed








section \<open>The aggregate result\<close>

lemma setProp_fresh: "k \<notin> set (map fst obj) \<Longrightarrow> setProp obj k v = obj @ [(k, v)]"
  by (induction obj k v rule: setProp.induct) auto

lemma setProp_keys: "fst ` set (setProp obj k v) = insert k (fst ` set obj)"
  by (induction obj k v rule: setProp.induct) auto

lemma pushErrors_spec: "pushErrors results acc = acc @ specErrors results"
  by (induction results acc rule: pushErrors.induct)
    (simp_all add: specErrors_def prefixedErrors_def)

lemma putSanitized_keys:
  "fst ` set (putSanitized results data)
     = fst ` set data \<union> fst ` set (filter (\<lambda>p. isValid (snd p)) results)"
  by (induction results data rule: putSanitized.induct) (auto simp add: setProp_keys)

lemma collectUpdate_both:
  "collectUpdate results (allErrs, data) = (pushErrors results allErrs, putSanitized results data)"
  by (induction results "(allErrs, data)" arbitrary: allErrs data rule: collectUpdate.induct)
    simp_all

lemma validateTask_shape:
  assumes "validateTask h t = Inr r"
  shows "\<exists>rTitle rDescription rPriority rDueDate.
      titleValidator (getProp t ''title'') = Inr rTitle
    \<and> descriptionValidator (getProp t ''description'') = Inr rDescription
    \<and> priorityValidator (getProp t ''priority'') = Inr rPriority
    \<and> dueDateValidator h (getProp t ''dueDate'') = Inr rDueDate
    \<and> fieldResults r = [(''title'', rTitle), (''description'', rDescription),
                        (''priority'', rPriority), (''dueDate'', rDueDate)]
    \<and> allErrors r = pushErrors (fieldResults r) []
    \<and> sanitizedData r = putSanitized (fieldResults r) []
    \<and> allValid r = (allErrors r = [])"
  using assms by (auto simp add: validateTask_def Let_def split: sum.splits)

lemma validateIfOwn_step:
  assumes "validateIfOwn u f validator rs = Inr rs'" and "f \<notin> set (map fst rs)"
  shows "(isOwnKey u f \<and> (\<exists>r. validator (getProp u f) = Inr r \<and> rs' = rs @ [(f, r)]))
       \<or> (\<not> isOwnKey u f \<and> rs' = rs)"
proof -
  from assms(1) have own: "hasOwnProperty u f = Inr (isOwnKey u f)"
    by (auto simp add: validateIfOwn_def hasOwnProperty_def isOwnKey_def split: sum.splits option.splits)
  show ?thesis
  proof (cases "isOwnKey u f")
    case True
    with assms own show ?thesis
      by (auto simp add: validateIfOwn_def setProp_fresh split: sum.splits)
  next
    case False
    with assms own show ?thesis by (simp add: validateIfOwn_def)
  qed
qed

lemma validateIfOwn_keys:
  assumes "validateIfOwn u f validator rs = Inr rs'" and "f \<notin> set (map fst rs)"
  shows "map fst rs' = map fst rs @ filter (isOwnKey u) [f]"
  using validateIfOwn_step [OF assms] by auto

lemma validateIfOwn_dispatch:
  assumes "validateIfOwn u f validator rs = Inr rs'" and "f \<notin> set (map fst rs)"
    and "\<forall>p \<in> set rs. dispatch h (fst p) (getProp u (fst p)) = Inr (snd p)"
    and "dispatch h f (getProp u f) = validator (getProp u f)"
  shows "\<forall>p \<in> set rs'. dispatch h (fst p) (getProp u (fst p)) = Inr (snd p)"
  using validateIfOwn_step [OF assms(1,2)] assms(3,4) by auto

lemma validateTaskUpdate_steps:
  assumes "validateTaskUpdate h u = Inr r"
  shows "\<exists>rs1 rs2 rs3.
      validateIfOwn u ''title'' titleValidator [] = Inr rs1
    \<and> validateIfOwn u ''description'' descriptionValidator rs1 = Inr rs2
    \<and> validateIfOwn u ''priority'' priorityValidator rs2 = Inr rs3
    \<and> validateIfOwn u ''dueDate'' (dueDateValidator h) rs3 = Inr (fieldResults r)
    \<and> allErrors r = pushErrors (fieldResults r) []
    \<and> sanitizedData r = putSanitized (fieldResults r) []
    \<and> allValid r = (allErrors r = [])"
  using assms
  by (auto simp add: validateTaskUpdate_def collectUpdate_both split: sum.splits)

lemma validateTaskUpdate_shape:
  assumes "validateTaskUpdate h u = Inr r"
  shows "map fst (fieldResults r)
           = filter (isOwnKey u) [''title'', ''description'', ''priority'', ''dueDate'']"
    and "\<forall>p \<in> set (fieldResults r). dispatch h (fst p) (getProp u (fst p)) = Inr (snd p)"
proof -
  from validateTaskUpdate_steps [OF assms] obtain rs1 rs2 rs3 where
    s1: "validateIfOwn u ''title'' titleValidator [] = Inr rs1" and
    s2: "validateIfOwn u ''description'' descriptionValidator rs1 = Inr rs2" and
    s3: "validateIfOwn u ''priority'' priorityValidator rs2 = Inr rs3" and
    s4: "validateIfOwn u ''dueDate'' (dueDateValidator h) rs3 = Inr (fieldResults r)"
    by blast
  have k1: "map fst rs1 = filter (isOwnKey u) [''title'']"
    using validateIfOwn_keys [OF s1] by simp
  have f1: "''description'' \<notin> set (map fst rs1)"
    unfolding k1 by simp
  have k2: "map fst rs2 = filter (isOwnKey u) [''title'', ''description'']"
    using validateIfOwn_keys [OF s2 f1] k1 by simp
  have f2: "''priority'' \<notin> set (map fst rs2)"
    unfolding k2 by simp
  have k3: "map fst rs3 = filter (isOwnKey u) [''title'', ''description'', ''priority'']"
    using validateIfOwn_keys [OF s3 f2] k2 by simp
  have f3: "''dueDate'' \<notin> set (map fst rs3)"
    unfolding k3 by simp
  show "map fst (fieldResults r)
           = filter (isOwnKey u) [''title'', ''description'', ''priority'', ''dueDate'']"
    using validateIfOwn_keys [OF s4 f3] k3 by simp
  have e1: "\<forall>p \<in> set rs1. dispatch h (fst p) (getProp u (fst p)) = Inr (snd p)"
    by (rule validateIfOwn_dispatch [OF s1]) (simp_all add: dispatch_def)
  have e2: "\<forall>p \<in> set rs2. dispatch h (fst p) (getProp u (fst p)) = Inr (snd p)"
    by (rule validateIfOwn_dispatch [OF s2 f1 e1]) (simp add: dispatch_def)
  have e3: "\<forall>p \<in> set rs3. dispatch h (fst p) (getProp u (fst p)) = Inr (snd p)"
    by (rule validateIfOwn_dispatch [OF s3 f2 e2]) (simp add: dispatch_def)
  show "\<forall>p \<in> set (fieldResults r). dispatch h (fst p) (getProp u (fst p)) = Inr (snd p)"
    by (rule validateIfOwn_dispatch [OF s4 f3 e3]) (simp add: dispatch_def)
qed


lemma putSanitized_spec:
  assumes "distinct (map fst results)"
    and "set (map fst data) \<inter> set (map fst results) = {}"
  shows "putSanitized results data = data @ specSanitized results"
  using assms
proof (induction results data rule: putSanitized.induct)
  case (1 data)
  then show ?case by (simp add: specSanitized_def)
next
  case (2 field r rest data)
  show ?case
  proof (cases "isValid r")
    case True
    from 2 have fresh: "field \<notin> set (map fst data)" by auto
    have "putSanitized rest (setProp data field (readSanitizedValue r))
        = setProp data field (readSanitizedValue r) @ specSanitized rest"
      using 2 True by (auto simp add: setProp_keys)
    with True fresh show ?thesis
      by (simp add: setProp_fresh specSanitized_def)
  next
    case False
    with 2 show ?thesis by (auto simp add: specSanitized_def)
  qed
qed

lemma specSanitized_keys:
  "fst ` set (specSanitized results) = {f. \<exists>fr. (f, fr) \<in> set results \<and> isValid fr}"
  by (force simp add: specSanitized_def)

lemma distinct_fieldNames:
  "distinct (filter P [''title'', ''description'', ''priority'', ''dueDate''])"
  by simp

lemma sanitized_of_results:
  assumes "sanitizedData r = putSanitized (fieldResults r) []"
    and "distinct (map fst (fieldResults r))"
  shows "sanitizedData r = specSanitized (fieldResults r)"
  using assms by (simp add: putSanitized_spec)

lemma failed_field_not_sanitized:
  assumes "distinct (map fst results)" and "(f, fr) \<in> set results" and "\<not> isValid fr"
  shows "f \<notin> fst ` set (specSanitized results)"
proof
  assume "f \<in> fst ` set (specSanitized results)"
  then obtain fr' where "(f, fr') \<in> set results" and "isValid fr'"
    by (auto simp add: specSanitized_keys)
  with assms(1,2) have "fr' = fr" by (meson eq_key_imp_eq_value)
  with \<open>isValid fr'\<close> assms(3) show False by simp
qed

lemma validateTask_results:
  assumes "validateTask h t = Inr r"
  shows "map fst (fieldResults r) = [''title'', ''description'', ''priority'', ''dueDate'']"
    and "\<forall>p \<in> set (fieldResults r). dispatch h (fst p) (getProp t (fst p)) = Inr (snd p)"
    and "allErrors r = specErrors (fieldResults r)"
    and "sanitizedData r = specSanitized (fieldResults r)"
    and "allValid r = (allErrors r = [])"
proof -
  from validateTask_shape [OF assms] obtain rTitle rDescription rPriority rDueDate where
    v: "titleValidator (getProp t ''title'') = Inr rTitle"
       "descriptionValidator (getProp t ''description'') = Inr rDescription"
       "priorityValidator (getProp t ''priority'') = Inr rPriority"
       "dueDateValidator h (getProp t ''dueDate'') = Inr rDueDate" and
    f: "fieldResults r = [(''title'', rTitle), (''description'', rDescription),
                        (''priority'', rPriority), (''dueDate'', rDueDate)]" and
    e: "allErrors r = pushErrors (fieldResults r) []" and
    d: "sanitizedData r = putSanitized (fieldResults r) []" and
    a: "allValid r = (allErrors r = [])"
    by blast
  show k: "map fst (fieldResults r) = [''title'', ''description'', ''priority'', ''dueDate'']"
    by (simp add: f)
  show "\<forall>p \<in> set (fieldResults r). dispatch h (fst p) (getProp t (fst p)) = Inr (snd p)"
    by (simp add: f v dispatch_def)
  show "allErrors r = specErrors (fieldResults r)"
    by (simp add: e pushErrors_spec)
  show "sanitizedData r = specSanitized (fieldResults r)"
    by (rule sanitized_of_results [OF d]) (simp add: k)
  show "allValid r = (allErrors r = [])" by (rule a)
qed

lemma validateTaskUpdate_results:
  assumes "validateTaskUpdate h u = Inr r"
  shows "allErrors r = specErrors (fieldResults r)"
    and "sanitizedData r = specSanitized (fieldResults r)"
    and "allValid r = (allErrors r = [])"
proof -
  from validateTaskUpdate_steps [OF assms] have
    e: "allErrors r = pushErrors (fieldResults r) []" and
    d: "sanitizedData r = putSanitized (fieldResults r) []" and
    a: "allValid r = (allErrors r = [])"
    by blast+
  show "allErrors r = specErrors (fieldResults r)"
    by (simp add: e pushErrors_spec)
  show "sanitizedData r = specSanitized (fieldResults r)"
    by (rule sanitized_of_results [OF d])
      (simp only: validateTaskUpdate_shape(1) [OF assms] distinct_fieldNames)
  show "allValid r = (allErrors r = [])" by (rule a)
qed

text \<open>
  C9, as stated, fails: an object can have all four own keys and also an own property
  named \<open>hasOwnProperty\<close>. \<open>validateTask\<close> never calls that method and returns a
  result; \<open>validateTaskUpdate\<close> calls it on the object and raises \<open>TypeError\<close>.
\<close>

theorem update_raises_on_shadowed_hasOwnProperty:
  "isOwnKey [''title'' \<mapsto> JStr ''Learn'', ''description'' \<mapsto> JStr '''',
       ''priority'' \<mapsto> JStr ''high'', ''dueDate'' \<mapsto> JNull,
       ''hasOwnProperty'' \<mapsto> JNum (Fin 1)] ''title''
   \<and> isOwnKey [''title'' \<mapsto> JStr ''Learn'', ''description'' \<mapsto> JStr '''',
       ''priority'' \<mapsto> JStr ''high'', ''dueDate'' \<mapsto> JNull,
       ''hasOwnProperty'' \<mapsto> JNum (Fin 1)] ''description''
   \<and> isOwnKey [''title'' \<mapsto> JStr ''Learn'', ''description'' \<mapsto> JStr '''',
       ''priority'' \<mapsto> JStr ''high'', ''dueDate'' \<mapsto> JNull,
       ''hasOwnProperty'' \<mapsto> JNum (Fin 1)] ''priority''
   \<and> isOwnKey [''title'' \<mapsto> JStr ''Learn'', ''description'' \<mapsto> JStr '''',
       ''priority'' \<mapsto> JStr ''high'', ''dueDate'' \<mapsto> JNull,
       ''hasOwnProperty'' \<mapsto> JNum (Fin 1)] ''dueDate''
   \<and> validateTaskUpdate hostUtc [''title'' \<mapsto> JStr ''Learn'', ''description'' \<mapsto> JStr '''',
       ''priority'' \<mapsto> JStr ''high'', ''dueDate'' \<mapsto> JNull,
       ''hasOwnProperty'' \<mapsto> JNum (Fin 1)] = Inl TypeError
   \<and> validateTask hostUtc [''title'' \<mapsto> JStr ''Learn'', ''description'' \<mapsto> JStr '''',
       ''priority'' \<mapsto> JStr ''high'', ''dueDate'' \<mapsto> JNull,
       ''hasOwnProperty'' \<mapsto> JNum (Fin 1)]
     = Inr \<lparr>allValid = True, allErrors = [],
            fieldResults =
              [(''title'', \<lparr>isValid = True, errors = [],
                            sanitizedValue = Some (JStr ''Learn'')\<rparr>),
               (''description'', \<lparr>isValid = True, errors = [],
                            sanitizedValue = Some (JStr '''')\<rparr>),
               (''priority'', \<lparr>isValid = True, errors = [],
                            sanitizedValue = Some (JStr ''high'')\<rparr>),
               (''dueDate'', \<lparr>isValid = True, errors = [], sanitizedValue = Some JNull\<rparr>)],
            sanitizedData = [(''title'', JStr ''Learn''), (''description'', JStr ''''),
                             (''priority'', JStr ''high''), (''dueDate'', JNull)]\<rparr>"
  by code_simp

text \<open>
  C9, amended. On an object that has all four own keys \<open>title\<close>, \<open>description\<close>,
  \<open>priority\<close> and \<open>dueDate\<close> and no own property named \<open>hasOwnProperty\<close>,
  \<open>validateTaskUpdate\<close> gives what \<open>validateTask\<close> gives on the same object and the
  same host: the same \<open>isValid\<close>, \<open>errors\<close>, \<open>fieldResults\<close> and \<open>sanitizedData\<close>, or
  the same raised error.
\<close>

theorem update_equals_create_on_full_object:
  assumes "isOwnKey t ''title''" and "isOwnKey t ''description''"
    and "isOwnKey t ''priority''" and "isOwnKey t ''dueDate''"
    and "\<not> isOwnKey t ''hasOwnProperty''"
  shows "validateTaskUpdate h t = validateTask h t"
  using assms
  by (simp add: validateTaskUpdate_def validateIfOwn_def hasOwnProperty_unshadowed
      validateTask_def collectUpdate_both Let_def split: sum.splits)

theorem update_equals_create_on_full_object_witness:
  "isOwnKey [''title'' \<mapsto> JStr ''Learn'', ''description'' \<mapsto> JStr '''',
       ''priority'' \<mapsto> JStr ''high'', ''dueDate'' \<mapsto> JNull] ''title''
   \<and> isOwnKey [''title'' \<mapsto> JStr ''Learn'', ''description'' \<mapsto> JStr '''',
       ''priority'' \<mapsto> JStr ''high'', ''dueDate'' \<mapsto> JNull] ''description''
   \<and> isOwnKey [''title'' \<mapsto> JStr ''Learn'', ''description'' \<mapsto> JStr '''',
       ''priority'' \<mapsto> JStr ''high'', ''dueDate'' \<mapsto> JNull] ''priority''
   \<and> isOwnKey [''title'' \<mapsto> JStr ''Learn'', ''description'' \<mapsto> JStr '''',
       ''priority'' \<mapsto> JStr ''high'', ''dueDate'' \<mapsto> JNull] ''dueDate''
   \<and> \<not> isOwnKey [''title'' \<mapsto> JStr ''Learn'', ''description'' \<mapsto> JStr '''',
       ''priority'' \<mapsto> JStr ''high'', ''dueDate'' \<mapsto> JNull] ''hasOwnProperty''
   \<and> validateTaskUpdate hostUtc [''title'' \<mapsto> JStr ''Learn'', ''description'' \<mapsto> JStr '''',
       ''priority'' \<mapsto> JStr ''high'', ''dueDate'' \<mapsto> JNull]
     = validateTask hostUtc [''title'' \<mapsto> JStr ''Learn'', ''description'' \<mapsto> JStr '''',
       ''priority'' \<mapsto> JStr ''high'', ''dueDate'' \<mapsto> JNull]"
  using update_equals_create_on_full_object [of "[''title'' \<mapsto> JStr ''Learn'',
       ''description'' \<mapsto> JStr '''', ''priority'' \<mapsto> JStr ''high'', ''dueDate'' \<mapsto> JNull]" hostUtc]
  by (simp add: isOwnKey_def)

text \<open>
  C5. In the aggregate result of \<open>validateTask\<close> and of \<open>validateTaskUpdate\<close>, the
  keys of \<open>sanitizedData\<close> are exactly the field names whose entry in
  \<open>fieldResults\<close> has \<open>isValid\<close> true. Each field name occurs once in
  \<open>fieldResults\<close>, so a field that failed validation is never a key of
  \<open>sanitizedData\<close>.
\<close>

theorem sanitizedData_keys_are_valid_fields:
  assumes "validateTask h t = Inr r \<or> validateTaskUpdate h t = Inr r"
  shows "fst ` set (sanitizedData r) = {f. \<exists>fr. (f, fr) \<in> set (fieldResults r) \<and> isValid fr}
    \<and> distinct (map fst (fieldResults r))
    \<and> (\<forall>p \<in> set (fieldResults r). \<not> isValid (snd p) \<longrightarrow> fst p \<notin> fst ` set (sanitizedData r))"
proof -
  have d: "distinct (map fst (fieldResults r))"
    and s: "sanitizedData r = specSanitized (fieldResults r)"
    using assms validateTask_results(1,4) [of h t r] validateTaskUpdate_shape(1) [of h t r]
      validateTaskUpdate_results(2) [of h t r] distinct_fieldNames
    by (auto simp del: filter.simps)
  have "\<forall>p \<in> set (fieldResults r). \<not> isValid (snd p) \<longrightarrow> fst p \<notin> fst ` set (sanitizedData r)"
    unfolding s using failed_field_not_sanitized [OF d] by (metis prod.collapse)
  with d s show ?thesis by (simp add: specSanitized_keys)
qed

text \<open>
  The full-validation example of the specification, on a host whose day is 2024-01-01.
\<close>

lemma example_create:
  "validateTask hostUtc [''title'' \<mapsto> JStr '''', ''description'' \<mapsto> JStr ''ok'',
       ''priority'' \<mapsto> JStr ''urgent'', ''dueDate'' \<mapsto> JStr ''2023-01-01'']
   = Inr \<lparr>allValid = False,
          allErrors = [''title: Title is required'',
                       ''priority: Priority must be one of: high, medium, low'',
                       ''dueDate: Due date must be today or in the future''],
          fieldResults =
            [(''title'', \<lparr>isValid = False, errors = [''Title is required''],
                          sanitizedValue = None\<rparr>),
             (''description'', \<lparr>isValid = True, errors = [],
                          sanitizedValue = Some (JStr ''ok'')\<rparr>),
             (''priority'', \<lparr>isValid = False,
                          errors = [''Priority must be one of: high, medium, low''],
                          sanitizedValue = Some (JStr ''urgent'')\<rparr>),
             (''dueDate'', \<lparr>isValid = False,
                          errors = [''Due date must be today or in the future''],
                          sanitizedValue = Some (JStr ''2023-01-01'')\<rparr>)],
          sanitizedData = [(''description'', JStr ''ok'')]\<rparr>"
  by code_simp

theorem sanitizedData_keys_are_valid_fields_witness:
  "\<exists>r. validateTask hostUtc [''title'' \<mapsto> JStr '''', ''description'' \<mapsto> JStr ''ok'',
           ''priority'' \<mapsto> JStr ''urgent'', ''dueDate'' \<mapsto> JStr ''2023-01-01''] = Inr r
       \<and> fst ` set (sanitizedData r)
           = {f. \<exists>fr. (f, fr) \<in> set (fieldResults r) \<and> isValid fr}
       \<and> fst ` set (sanitizedData r) = {''description''}"
  using sanitizedData_keys_are_valid_fields [OF disjI1 [OF example_create]]
  by (simp add: example_create)

lemma example_update:
  "validateTaskUpdate hostUtc [''title'' \<mapsto> JStr ''New Title'', ''priority'' \<mapsto> JStr ''urgent'']
   = Inr \<lparr>allValid = False,
          allErrors = [''priority: Priority must be one of: high, medium, low''],
          fieldResults =
            [(''title'', \<lparr>isValid = True, errors = [],
                          sanitizedValue = Some (JStr ''New Title'')\<rparr>),
             (''priority'', \<lparr>isValid = False,
                          errors = [''Priority must be one of: high, medium, low''],
                          sanitizedValue = Some (JStr ''urgent'')\<rparr>)],
          sanitizedData = [(''title'', JStr ''New Title'')]\<rparr>"
  by code_simp

text \<open>
  C6. \<open>validateTaskUpdate\<close> runs a field validator exactly for the field names that
  are own keys of the update object, whatever their values: the keys of
  \<open>fieldResults\<close> are the present ones among \<open>title\<close>, \<open>description\<close>, \<open>priority\<close>,
  \<open>dueDate\<close>, each entry is the result of that field's validator on the supplied
  value, and \<open>sanitizedData\<close> holds the valid ones of these entries, so only supplied
  keys. \<open>{}\<close> gives \<open>isValid\<close> true with nothing else; \<open>{title: ""}\<close> runs the title
  validator; \<open>{title: "New Title"}\<close> gives \<open>fieldResults\<close> with the one key \<open>title\<close>.
\<close>

theorem update_validates_present_keys:
  "(validateTaskUpdate h u = Inr r \<longrightarrow>
      map fst (fieldResults r)
        = filter (isOwnKey u) [''title'', ''description'', ''priority'', ''dueDate'']
      \<and> (\<forall>p \<in> set (fieldResults r). dispatch h (fst p) (getProp u (fst p)) = Inr (snd p))
      \<and> sanitizedData r = specSanitized (fieldResults r)
      \<and> fst ` set (sanitizedData r) \<subseteq> {f. isOwnKey u f})
   \<and> validateTaskUpdate h Map.empty
       = Inr \<lparr>allValid = True, allErrors = [], fieldResults = [], sanitizedData = []\<rparr>
   \<and> validateTaskUpdate h [''title'' \<mapsto> JStr '''']
       = Inr \<lparr>allValid = False, allErrors = [''title: Title is required''],
              fieldResults = [(''title'', \<lparr>isValid = False, errors = [''Title is required''],
                                           sanitizedValue = None\<rparr>)],
              sanitizedData = []\<rparr>
   \<and> validateTaskUpdate h [''title'' \<mapsto> JStr ''New Title'']
       = Inr \<lparr>allValid = True, allErrors = [],
              fieldResults = [(''title'', \<lparr>isValid = True, errors = [],
                                           sanitizedValue = Some (JStr ''New Title'')\<rparr>)],
              sanitizedData = [(''title'', JStr ''New Title'')]\<rparr>"
proof -
  have general: "map fst (fieldResults r)
        = filter (isOwnKey u) [''title'', ''description'', ''priority'', ''dueDate'']
      \<and> (\<forall>p \<in> set (fieldResults r). dispatch h (fst p) (getProp u (fst p)) = Inr (snd p))
      \<and> sanitizedData r = specSanitized (fieldResults r)
      \<and> fst ` set (sanitizedData r) \<subseteq> {f. isOwnKey u f}"
    if ret: "validateTaskUpdate h u = Inr r"
  proof -
    note k = validateTaskUpdate_shape(1) [OF ret]
    note s = validateTaskUpdate_results(2) [OF ret]
    have "fst ` set (specSanitized (fieldResults r)) \<subseteq> set (map fst (fieldResults r))"
      by (force simp add: specSanitized_def)
    also have "\<dots> \<subseteq> {f. isOwnKey u f}"
      unfolding k by auto
    finally show ?thesis
      using k s validateTaskUpdate_shape(2) [OF ret] by simp
  qed
  have empty: "validateTaskUpdate h Map.empty
       = Inr \<lparr>allValid = True, allErrors = [], fieldResults = [], sanitizedData = []\<rparr>"
    by (simp add: validateTaskUpdate_def validateIfOwn_def hasOwnProperty_def isOwnKey_def)
  have blank: "validateTaskUpdate h [''title'' \<mapsto> JStr '''']
       = Inr \<lparr>allValid = False, allErrors = [''title: Title is required''],
              fieldResults = [(''title'', \<lparr>isValid = False, errors = [''Title is required''],
                                           sanitizedValue = None\<rparr>)],
              sanitizedData = []\<rparr>"
    by (simp add: validateTaskUpdate_def validateIfOwn_def hasOwnProperty_def isOwnKey_def getProp_def
        titleValidator_def TitleValidationStrategy_validate_def)
  have new: "validateTaskUpdate h [''title'' \<mapsto> JStr ''New Title'']
       = Inr \<lparr>allValid = True, allErrors = [],
              fieldResults = [(''title'', \<lparr>isValid = True, errors = [],
                                           sanitizedValue = Some (JStr ''New Title'')\<rparr>)],
              sanitizedData = [(''title'', JStr ''New Title'')]\<rparr>"
    by (simp add: validateTaskUpdate_def validateIfOwn_def hasOwnProperty_def isOwnKey_def getProp_def
        titleValidator_def TitleValidationStrategy_validate_def titleChecks_def trim_def
        isWhiteSpace_def sanitize_def readSanitizedValue_def)
  from general empty blank new show ?thesis by blast
qed

theorem update_validates_present_keys_witness:
  "\<exists>r. validateTaskUpdate hostUtc [''title'' \<mapsto> JStr ''New Title'', ''priority'' \<mapsto> JStr ''urgent'']
         = Inr r
       \<and> map fst (fieldResults r) = [''title'', ''priority'']
       \<and> map fst (fieldResults r)
           = filter (isOwnKey [''title'' \<mapsto> JStr ''New Title'', ''priority'' \<mapsto> JStr ''urgent''])
               [''title'', ''description'', ''priority'', ''dueDate'']
       \<and> sanitizedData r = specSanitized (fieldResults r)
       \<and> map fst (sanitizedData r) = [''title'']"
  using update_validates_present_keys [of hostUtc
      "[''title'' \<mapsto> JStr ''New Title'', ''priority'' \<mapsto> JStr ''urgent'']"
      "\<lparr>allValid = False,
          allErrors = [''priority: Priority must be one of: high, medium, low''],
          fieldResults =
            [(''title'', \<lparr>isValid = True, errors = [],
                          sanitizedValue = Some (JStr ''New Title'')\<rparr>),
             (''priority'', \<lparr>isValid = False,
                          errors = [''Priority must be one of: high, medium, low''],
                          sanitizedValue = Some (JStr ''urgent'')\<rparr>)],
          sanitizedData = [(''title'', JStr ''New Title'')]\<rparr>"]
  by (simp add: example_update hasOwnProperty_def isOwnKey_def specSanitized_def readSanitizedValue_def)

lemma example_update_failing:
  "validateTaskUpdate hostUtc [''dueDate'' \<mapsto> JStr ''2023-01-01'', ''priority'' \<mapsto> JStr ''urgent'',
       ''description'' \<mapsto> JStr ''ok'', ''title'' \<mapsto> JStr '''']
   = Inr \<lparr>allValid = False,
          allErrors = [''title: Title is required'',
                       ''priority: Priority must be one of: high, medium, low'',
                       ''dueDate: Due date must be today or in the future''],
          fieldResults =
            [(''title'', \<lparr>isValid = False, errors = [''Title is required''],
                          sanitizedValue = None\<rparr>),
             (''description'', \<lparr>isValid = True, errors = [],
                          sanitizedValue = Some (JStr ''ok'')\<rparr>),
             (''priority'', \<lparr>isValid = False,
                          errors = [''Priority must be one of: high, medium, low''],
                          sanitizedValue = Some (JStr ''urgent'')\<rparr>),
             (''dueDate'', \<lparr>isValid = False,
                          errors = [''Due date must be today or in the future''],
                          sanitizedValue = Some (JStr ''2023-01-01'')\<rparr>)],
          sanitizedData = [(''description'', JStr ''ok'')]\<rparr>"
  by code_simp

lemma update_two_failing_fields:
  "validateTaskUpdate h [''priority'' \<mapsto> JStr ''urgent'', ''title'' \<mapsto> JStr '''']
   = Inr \<lparr>allValid = False,
          allErrors = [''title: Title is required'',
                       ''priority: Priority must be one of: high, medium, low''],
          fieldResults =
            [(''title'', \<lparr>isValid = False, errors = [''Title is required''],
                          sanitizedValue = None\<rparr>),
             (''priority'', \<lparr>isValid = False,
                          errors = [''Priority must be one of: high, medium, low''],
                          sanitizedValue = Some (JStr ''urgent'')\<rparr>)],
          sanitizedData = []\<rparr>"
  by (simp add: validateTaskUpdate_def validateIfOwn_def hasOwnProperty_def isOwnKey_def
      getProp_def titleValidator_def TitleValidationStrategy_validate_def priorityValidator_def
      PriorityValidationStrategy_validate_def toLowerCase_def lowerChar_def trim_def
      isWhiteSpace_def validPriorities_def)

text \<open>
  C7. The \<open>errors\<close> of the aggregate result of \<open>validateTask\<close> and of
  \<open>validateTaskUpdate\<close> are the error strings of each failing field, prefixed
  \<open><fieldName>: \<close>, concatenated over \<open>fieldResults\<close>, whose entries are the
  validators' results in the fixed order \<open>title\<close>, \<open>description\<close>, \<open>priority\<close>,
  \<open>dueDate\<close> (the present ones of these for an update), each field's own errors in
  their order. Both methods do return such a result whenever the text fields are
  strings or falsy (and, for an update, the object has no own \<open>hasOwnProperty\<close>); an
  update whose \<open>priority\<close> and \<open>title\<close> both fail lists the title's error first.
\<close>

theorem aggregate_errors_in_field_order:
  "(validateTask h t = Inr r \<longrightarrow>
      map fst (fieldResults r) = [''title'', ''description'', ''priority'', ''dueDate'']
      \<and> (\<forall>p \<in> set (fieldResults r). dispatch h (fst p) (getProp t (fst p)) = Inr (snd p))
      \<and> allErrors r = specErrors (fieldResults r))
   \<and> (validateTaskUpdate h t = Inr r' \<longrightarrow>
      map fst (fieldResults r')
        = filter (isOwnKey t) [''title'', ''description'', ''priority'', ''dueDate'']
      \<and> (\<forall>p \<in> set (fieldResults r'). dispatch h (fst p) (getProp t (fst p)) = Inr (snd p))
      \<and> allErrors r' = specErrors (fieldResults r'))
   \<and> (stringOrFalsy (getProp t ''title'') \<and> stringOrFalsy (getProp t ''description'')
       \<and> stringOrFalsy (getProp t ''priority'') \<longrightarrow>
      (\<exists>r. validateTask h t = Inr r))
   \<and> (\<not> isOwnKey t ''hasOwnProperty''
       \<and> stringOrFalsy (getProp t ''title'') \<and> stringOrFalsy (getProp t ''description'')
       \<and> stringOrFalsy (getProp t ''priority'') \<longrightarrow>
      (\<exists>r'. validateTaskUpdate h t = Inr r'))
   \<and> validateTaskUpdate h [''priority'' \<mapsto> JStr ''urgent'', ''title'' \<mapsto> JStr '''']
       = Inr \<lparr>allValid = False,
              allErrors = [''title: Title is required'',
                           ''priority: Priority must be one of: high, medium, low''],
              fieldResults =
                [(''title'', \<lparr>isValid = False, errors = [''Title is required''],
                              sanitizedValue = None\<rparr>),
                 (''priority'', \<lparr>isValid = False,
                              errors = [''Priority must be one of: high, medium, low''],
                              sanitizedValue = Some (JStr ''urgent'')\<rparr>)],
              sanitizedData = []\<rparr>"
  using validateTask_results(1,2,3) [of h t r] validateTaskUpdate_shape [of h t r']
    validateTaskUpdate_results(1) [of h t r'] validateTask_returns_iff [of h t]
    validateTaskUpdate_returns_iff [of h t] update_two_failing_fields [of h]
  by blast

theorem aggregate_errors_in_field_order_witness:
  "\<exists>r r'. validateTask hostUtc [''title'' \<mapsto> JStr '''', ''description'' \<mapsto> JStr ''ok'',
           ''priority'' \<mapsto> JStr ''urgent'', ''dueDate'' \<mapsto> JStr ''2023-01-01''] = Inr r
       \<and> map fst (fieldResults r) = [''title'', ''description'', ''priority'', ''dueDate'']
       \<and> allErrors r = specErrors (fieldResults r)
       \<and> allErrors r = [''title: Title is required'',
                        ''priority: Priority must be one of: high, medium, low'',
                        ''dueDate: Due date must be today or in the future'']
       \<and> validateTaskUpdate hostUtc [''title'' \<mapsto> JStr '''', ''description'' \<mapsto> JStr ''ok'',
           ''priority'' \<mapsto> JStr ''urgent'', ''dueDate'' \<mapsto> JStr ''2023-01-01''] = Inr r'
       \<and> map fst (fieldResults r') = [''title'', ''description'', ''priority'', ''dueDate'']
       \<and> allErrors r' = specErrors (fieldResults r')
       \<and> allErrors r' = [''title: Title is required'',
                         ''priority: Priority must be one of: high, medium, low'',
                         ''dueDate: Due date must be today or in the future'']"
proof -
  have same: "[''dueDate'' \<mapsto> JStr ''2023-01-01'', ''priority'' \<mapsto> JStr ''urgent'',
       ''description'' \<mapsto> JStr ''ok'', ''title'' \<mapsto> JStr '''']
     = [''title'' \<mapsto> JStr '''', ''description'' \<mapsto> JStr ''ok'',
           ''priority'' \<mapsto> JStr ''urgent'', ''dueDate'' \<mapsto> JStr ''2023-01-01'']"
    by (rule ext) simp
  note u = example_update_failing [unfolded same]
  from aggregate_errors_in_field_order [of hostUtc
      "[''title'' \<mapsto> JStr '''', ''description'' \<mapsto> JStr ''ok'',
        ''priority'' \<mapsto> JStr ''urgent'', ''dueDate'' \<mapsto> JStr ''2023-01-01'']"
      "\<lparr>allValid = False,
          allErrors = [''title: Title is required'',
                       ''priority: Priority must be one of: high, medium, low'',
                       ''dueDate: Due date must be today or in the future''],
          fieldResults =
            [(''title'', \<lparr>isValid = False, errors = [''Title is required''],
                          sanitizedValue = None\<rparr>),
             (''description'', \<lparr>isValid = True, errors = [],
                          sanitizedValue = Some (JStr ''ok'')\<rparr>),
             (''priority'', \<lparr>isValid = False,
                          errors = [''Priority must be one of: high, medium, low''],
                          sanitizedValue = Some (JStr ''urgent'')\<rparr>),
             (''dueDate'', \<lparr>isValid = False,
                          errors = [''Due date must be today or in the future''],
                          sanitizedValue = Some (JStr ''2023-01-01'')\<rparr>)],
          sanitizedData = [(''description'', JStr ''ok'')]\<rparr>"
      "\<lparr>allValid = False,
          allErrors = [''title: Title is required'',
                       ''priority: Priority must be one of: high, medium, low'',
                       ''dueDate: Due date must be today or in the future''],
          fieldResults =
            [(''title'', \<lparr>isValid = False, errors = [''Title is required''],
                          sanitizedValue = None\<rparr>),
             (''description'', \<lparr>isValid = True, errors = [],
                          sanitizedValue = Some (JStr ''ok'')\<rparr>),
             (''priority'', \<lparr>isValid = False,
                          errors = [''Priority must be one of: high, medium, low''],
                          sanitizedValue = Some (JStr ''urgent'')\<rparr>),
             (''dueDate'', \<lparr>isValid = False,
                          errors = [''Due date must be today or in the future''],
                          sanitizedValue = Some (JStr ''2023-01-01'')\<rparr>)],
          sanitizedData = [(''description'', JStr ''ok'')]\<rparr>"]
  show ?thesis
    by (simp add: example_create u)
qed

section \<open>The due-date boundary\<close>

lemma local_day_examples:
  "beforeT (toISOString (nowMs hostUtc + tzOffsetMin hostUtc * 60000)) = ''2024-01-01''
   \<and> beforeT (toISOString (nowMs hostWest + tzOffsetMin hostWest * 60000)) = ''2024-01-01''"
  by code_simp

lemma dueDate_boundary_utc:
  "dueDateValidator hostUtc (JStr ''2024-01-01'')
     = Inr \<lparr>isValid = True, errors = [], sanitizedValue = Some (JStr ''2024-01-01'')\<rparr>
   \<and> dueDateValidator hostUtc (JStr ''2023-12-31'')
     = Inr \<lparr>isValid = False, errors = [''Due date must be today or in the future''],
            sanitizedValue = Some (JStr ''2023-12-31'')\<rparr>"
  by code_simp

text \<open>
  Midnight UTC of the host's current calendar day lies before the host's local
  midnight exactly when the host is west of UTC.
\<close>

lemma utc_midnight_of_today_is_past_iff_west:
  assumes "setHours0 h (nowMs h) = Some n"
  shows "dateBefore (((nowMs h + tzOffsetMin h * 60000) div msPerDay) * msPerDay) (Some n)
     = (tzOffsetMin h < 0)"
  using assms
  by (auto simp add: setHours0_def timeClip_def dateBefore_def Let_def split: if_splits)

text \<open>
  C4. The claim is that a date string naming the current calendar day is valid. On the
  host five hours west of UTC, at local noon of 2024-01-01, the validator rejects
  \<open>2024-01-01\<close>: the string is read as midnight UTC (time value 1704067200000),
  \<open>now.setHours(0, 0, 0, 0)\<close> is the local midnight, 05:00 UTC (1704085200000), and
  the parsed date is compared as it is, without being moved to the start of its day.
\<close>

theorem today_rejected_west_of_utc:
  "dueDateValidator hostWest (JStr ''2024-01-01'')
     = Inr \<lparr>isValid = False, errors = [''Due date must be today or in the future''],
            sanitizedValue = Some (JStr ''2024-01-01'')\<rparr>
   \<and> newDate hostWest (JStr ''2024-01-01'') = Some 1704067200000
   \<and> setHours0 hostWest (nowMs hostWest) = Some 1704085200000"
  by code_simp

section \<open>Debouncing\<close>

subsection \<open>One call\<close>

lemma readTimer_setProp:
  "readTimer (setProp store k i) k' = (if k' = k then Some i else readTimer store k')"
  by (induction store k i rule: setProp.induct) (auto simp add: readTimer_def)

lemma readTimer_writeTimer:
  "readTimer (writeTimer store k i) k' =
     (if k' = k \<and> k \<noteq> ''__proto__'' then Some i else readTimer store k')"
  by (simp add: writeTimer_def readTimer_setProp)

lemma timeoutOf_nonneg: "0 \<le> timeoutOf delay"
  by (simp add: timeoutOf_def Let_def)

lemma timeoutOf_examples:
  "timeoutOf 300 = 300 \<and> timeoutOf 0 = 0 \<and> timeoutOf (- 5) = 0
   \<and> timeoutOf 2147483647 = 2147483647 \<and> timeoutOf 3000000000 = 0"
  by (simp add: timeoutOf_def Let_def)

lemma validateField_parts:
  "nextId (validateField w f v cb d) = Suc (nextId w)"
  "env (validateField w f v cb d) = env w"
  "calls (validateField w f v cb d) = calls w"
  "debounceTimers (validateField w f v cb d) = writeTimer (debounceTimers w) f (nextId w)"
  by (simp_all add: validateField_def setTimeout_def Let_def clearTimeout_def
      split: option.split)

lemma validateField_pending_raw:
  "pending (validateField w f v cb d)
     = (case readTimer (debounceTimers w) f of
          None \<Rightarrow> pending w
        | Some i \<Rightarrow> (if i \<noteq> 0 then filter (\<lambda>t. tid t \<noteq> i) (pending w) else pending w))
       @ [\<lparr>tid = nextId w, due = nowMs (env w) + timeoutOf d, tField = f, tValue = v,
            tCallback = cb\<rparr>]"
  by (simp add: validateField_def setTimeout_def Let_def clearTimeout_def split: option.split)

text \<open>
  In a state the validator can reach, a call cancels exactly the pending timers of its
  own field and adds the new one; for \<open>__proto__\<close> it cancels nothing.
\<close>

lemma validateField_pending:
  assumes "consistent w"
  shows "pending (validateField w f v cb d)
     = (if f = ''__proto__'' then pending w else filter (\<lambda>t. tField t \<noteq> f) (pending w))
       @ [\<lparr>tid = nextId w, due = nowMs (env w) + timeoutOf d, tField = f, tValue = v,
            tCallback = cb\<rparr>]"
proof -
  from assms have
    pos: "\<forall>t \<in> set (pending w). tid t \<noteq> 0" and
    own: "\<forall>t \<in> set (pending w). tField t \<noteq> ''__proto__'' \<longrightarrow>
            readTimer (debounceTimers w) (tField t) = Some (tid t)" and
    other: "\<forall>g i. readTimer (debounceTimers w) g = Some i \<longrightarrow>
            (\<forall>t \<in> set (pending w). tid t = i \<longrightarrow> tField t = g)" and
    proto: "readTimer (debounceTimers w) ''__proto__'' = None"
    by (simp_all add: consistent_def)
  have "(case readTimer (debounceTimers w) f of
          None \<Rightarrow> pending w
        | Some i \<Rightarrow> (if i \<noteq> 0 then filter (\<lambda>t. tid t \<noteq> i) (pending w) else pending w))
      = (if f = ''__proto__'' then pending w else filter (\<lambda>t. tField t \<noteq> f) (pending w))"
  proof (cases "f = ''__proto__''")
    case True
    then show ?thesis by (simp add: proto)
  next
    case notProto: False
    show ?thesis
    proof (cases "readTimer (debounceTimers w) f")
      case None
      with own notProto have "\<forall>t \<in> set (pending w). tField t \<noteq> f" by fastforce
      then have "filter (\<lambda>t. tField t \<noteq> f) (pending w) = pending w"
        by (simp add: filter_id_conv)
      with None notProto show ?thesis by simp
    next
      case (Some i)
      have "filter (\<lambda>t. tid t \<noteq> i) (pending w) = filter (\<lambda>t. tField t \<noteq> f) (pending w)"
      proof (rule filter_cong [OF refl])
        fix t assume t: "t \<in> set (pending w)"
        show "(tid t \<noteq> i) = (tField t \<noteq> f)"
        proof
          assume "tid t \<noteq> i"
          with own t notProto Some show "tField t \<noteq> f" by fastforce
        next
          assume "tField t \<noteq> f"
          with other t Some show "tid t \<noteq> i" by blast
        qed
      qed
      moreover have "filter (\<lambda>t. tField t \<noteq> f) (pending w) = pending w" if "i = 0"
      proof -
        have "\<forall>t \<in> set (pending w). tField t \<noteq> f"
        proof
          fix t assume t: "t \<in> set (pending w)"
          show "tField t \<noteq> f"
          proof
            assume "tField t = f"
            with own t notProto Some have "tid t = i" by fastforce
            with pos t that show False by auto
          qed
        qed
        then show ?thesis by (simp add: filter_id_conv)
      qed
      ultimately show ?thesis using Some notProto by simp
    qed
  qed
  then show ?thesis by (simp add: validateField_pending_raw)
qed

subsection \<open>Time passing\<close>

lemma outcome_nowMs: "outcome (h\<lparr>nowMs := x\<rparr>) t = outcome h t"
  by (simp add: outcome_def)

lemma foldl_fireAt:
  "calls (foldl fireAt w ts) = calls w @ concat (map (outcome (env w)) ts)
   \<and> pending (foldl fireAt w ts) = pending w
   \<and> debounceTimers (foldl fireAt w ts) = debounceTimers w
   \<and> nextId (foldl fireAt w ts) = nextId w
   \<and> (env (foldl fireAt w ts))\<lparr>nowMs := x\<rparr> = (env w)\<lparr>nowMs := x\<rparr>"
proof (induction ts arbitrary: w)
  case Nil
  then show ?case by simp
next
  case (Cons t ts)
  have step: "calls (fireAt w t) = calls w @ outcome (env w) t"
    "pending (fireAt w t) = pending w" "debounceTimers (fireAt w t) = debounceTimers w"
    "nextId (fireAt w t) = nextId w" "env (fireAt w t) = (env w)\<lparr>nowMs := due t\<rparr>"
    by (simp_all add: fireAt_def fire_def outcome_def split: sum.split)
  from Cons.IH [of "fireAt w t"] show ?case
    by (simp add: step outcome_nowMs)
qed

lemma advance_parts:
  "pending (advance w dt) = filter (\<lambda>t. \<not> due t \<le> nowMs (env w) + int dt) (pending w)"
  "debounceTimers (advance w dt) = debounceTimers w"
  "nextId (advance w dt) = nextId w"
  "env (advance w dt) = (env w)\<lparr>nowMs := nowMs (env w) + int dt\<rparr>"
  "calls (advance w dt)
     = calls w @ concat (map (outcome (env w))
         (sort_key due (filter (\<lambda>t. due t \<le> nowMs (env w) + int dt) (pending w))))"
  using foldl_fireAt [of "w\<lparr>pending := filter (\<lambda>t. \<not> due t \<le> nowMs (env w) + int dt) (pending w)\<rparr>"
      "sort_key due (filter (\<lambda>t. due t \<le> nowMs (env w) + int dt) (pending w))"
      "nowMs (env w) + int dt"]
  by (simp_all add: advance_def Let_def)

subsection \<open>Reachable states\<close>

lemma consistent_new: "consistent (newRealTimeValidator h)"
  by (simp add: consistent_def newRealTimeValidator_def readTimer_def)

lemma consistent_validateField:
  assumes "consistent w"
  shows "consistent (validateField w f v cb d)"
proof -
  define w' where "w' = validateField w f v cb d"
  define new where "new = \<lparr>tid = nextId w, due = nowMs (env w) + timeoutOf d, tField = f,
      tValue = v, tCallback = cb\<rparr>"
  define kept where
    "kept = (if f = ''__proto__'' then pending w else filter (\<lambda>t. tField t \<noteq> f) (pending w))"
  have p: "pending w' = kept @ [new]"
    by (simp add: w'_def kept_def new_def validateField_pending [OF assms])
  have n: "nextId w' = Suc (nextId w)"
    by (simp add: w'_def validateField_parts)
  have r: "\<And>g. readTimer (debounceTimers w') g
      = (if g = f \<and> f \<noteq> ''__proto__'' then Some (nextId w) else readTimer (debounceTimers w) g)"
    by (simp add: w'_def validateField_parts readTimer_writeTimer)
  have newTid: "tid new = nextId w" and newField: "tField new = f"
    by (simp_all add: new_def)
  from assms have
    next0: "nextId w \<noteq> 0" and
    ids: "\<And>t. t \<in> set (pending w) \<Longrightarrow> tid t \<noteq> 0 \<and> tid t < nextId w" and
    dist: "distinct (map tid (pending w))" and
    own: "\<And>t. t \<in> set (pending w) \<Longrightarrow> tField t \<noteq> ''__proto__'' \<Longrightarrow>
            readTimer (debounceTimers w) (tField t) = Some (tid t)" and
    bound: "\<And>g i. readTimer (debounceTimers w) g = Some i \<Longrightarrow> i < nextId w" and
    other: "\<And>g i t. readTimer (debounceTimers w) g = Some i \<Longrightarrow> t \<in> set (pending w) \<Longrightarrow>
            tid t = i \<Longrightarrow> tField t = g" and
    proto: "readTimer (debounceTimers w) ''__proto__'' = None"
    by (simp_all add: consistent_def)
  have keptSub: "\<And>t. t \<in> set kept \<Longrightarrow> t \<in> set (pending w)"
    by (simp add: kept_def split: if_splits)
  have keptField: "\<And>t. t \<in> set kept \<Longrightarrow> f \<noteq> ''__proto__'' \<Longrightarrow> tField t \<noteq> f"
    by (simp add: kept_def)
  have keptDist: "distinct (map tid kept)"
    using dist by (simp add: kept_def distinct_map_filter)
  have keptIds: "\<And>t. t \<in> set kept \<Longrightarrow> tid t \<noteq> 0 \<and> tid t < nextId w"
    using keptSub ids by blast
  have c1: "nextId w' \<noteq> 0" by (simp add: n)
  have c2: "\<forall>t \<in> set (pending w'). tid t \<noteq> 0 \<and> tid t < nextId w'"
  proof
    fix t assume "t \<in> set (pending w')"
    then consider "t \<in> set kept" | "t = new" by (auto simp add: p)
    then show "tid t \<noteq> 0 \<and> tid t < nextId w'"
    proof cases
      case 1
      with keptIds [of t] show ?thesis by (simp add: n)
    next
      case 2
      with next0 show ?thesis by (simp add: n newTid)
    qed
  qed
  have "nextId w \<notin> set (map tid kept)"
    using keptIds by fastforce
  with keptDist have c3: "distinct (map tid (pending w'))"
    by (simp add: p newTid)
  have c4: "\<forall>t \<in> set (pending w'). tField t \<noteq> ''__proto__'' \<longrightarrow>
      readTimer (debounceTimers w') (tField t) = Some (tid t)"
  proof (intro ballI impI)
    fix t assume "t \<in> set (pending w')" and np: "tField t \<noteq> ''__proto__''"
    then consider "t \<in> set kept" | "t = new" by (auto simp add: p)
    then show "readTimer (debounceTimers w') (tField t) = Some (tid t)"
    proof cases
      case 1
      from own [OF keptSub [OF 1] np]
      have o: "readTimer (debounceTimers w) (tField t) = Some (tid t)" .
      show ?thesis
      proof (cases "f = ''__proto__''")
        case True
        with o show ?thesis by (simp add: r)
      next
        case False
        with keptField [OF 1] have "tField t \<noteq> f" by simp
        with o show ?thesis by (simp add: r)
      qed
    next
      case 2
      with np show ?thesis by (simp add: r newTid newField)
    qed
  qed
  have c5: "\<forall>g i. readTimer (debounceTimers w') g = Some i \<longrightarrow>
      i < nextId w' \<and> (\<forall>t \<in> set (pending w'). tid t = i \<longrightarrow> tField t = g)"
  proof (intro allI impI)
    fix g i
    assume rd: "readTimer (debounceTimers w') g = Some i"
    show "i < nextId w' \<and> (\<forall>t \<in> set (pending w'). tid t = i \<longrightarrow> tField t = g)"
    proof (cases "g = f \<and> f \<noteq> ''__proto__''")
      case True
      with rd have i: "i = nextId w" by (simp add: r)
      have "\<forall>t \<in> set (pending w'). tid t = i \<longrightarrow> tField t = g"
      proof (intro ballI impI)
        fix t assume "t \<in> set (pending w')" and ti: "tid t = i"
        then consider "t \<in> set kept" | "t = new" by (auto simp add: p)
        then show "tField t = g"
        proof cases
          case 1
          with keptIds [of t] ti i show ?thesis by simp
        next
          case 2
          with True show ?thesis by (simp add: newField)
        qed
      qed
      with i show ?thesis by (simp add: n)
    next
      case False
      with rd have rd': "readTimer (debounceTimers w) g = Some i"
        by (simp add: r split: if_splits)
      have "\<forall>t \<in> set (pending w'). tid t = i \<longrightarrow> tField t = g"
      proof (intro ballI impI)
        fix t assume "t \<in> set (pending w')" and ti: "tid t = i"
        then consider "t \<in> set kept" | "t = new" by (auto simp add: p)
        then show "tField t = g"
        proof cases
          case 1
          from other [OF rd' keptSub [OF 1] ti] show ?thesis .
        next
          case 2
          with ti bound [OF rd'] show ?thesis by (simp add: newTid)
        qed
      qed
      with bound [OF rd'] show ?thesis by (simp add: n)
    qed
  qed
  have c6: "readTimer (debounceTimers w') ''__proto__'' = None"
    by (simp add: r proto)
  have "consistent w'"
    unfolding consistent_def using c1 c2 c3 c4 c5 c6 by (intro conjI)
  then show ?thesis by (simp only: w'_def)
qed

lemma consistent_advance:
  assumes "consistent w"
  shows "consistent (advance w dt)"
  using assms
  by (simp add: consistent_def advance_parts distinct_map_filter)

lemma foldl_clearTimeout:
  "pending (foldl clearTimeout w handles) = filter (\<lambda>t. tid t \<notin> set handles) (pending w)
   \<and> nextId (foldl clearTimeout w handles) = nextId w
   \<and> env (foldl clearTimeout w handles) = env w
   \<and> calls (foldl clearTimeout w handles) = calls w"
proof (induction handles arbitrary: w)
  case Nil
  then show ?case by simp
next
  case (Cons i handles)
  have "filter (\<lambda>t. tid t \<notin> set handles) (filter (\<lambda>t. tid t \<noteq> i) (pending w))
      = filter (\<lambda>t. tid t \<notin> set (i # handles)) (pending w)"
    by (auto intro: filter_cong)
  with Cons.IH [of "clearTimeout w i"] show ?case
    by (simp add: clearTimeout_def)
qed

lemma clearTimers_parts:
  "pending (clearTimers w)
     = filter (\<lambda>t. tid t \<notin> set (map snd (debounceTimers w))) (pending w)"
  "debounceTimers (clearTimers w) = []"
  "nextId (clearTimers w) = nextId w"
  "env (clearTimers w) = env w"
  "calls (clearTimers w) = calls w"
  using foldl_clearTimeout [of w "map snd (debounceTimers w)"]
  by (simp_all add: clearTimers_def)

lemma stored_handle_listed:
  "readTimer store g = Some i \<Longrightarrow> i \<in> set (map snd store)"
  unfolding readTimer_def by (metis map_of_SomeD set_zip_rightD zip_map_fst_snd)

lemma consistent_clearTimers:
  assumes "consistent w"
  shows "consistent (clearTimers w)"
proof -
  from assms have
    next0: "nextId w \<noteq> 0" and
    ids: "\<forall>t \<in> set (pending w). tid t \<noteq> 0 \<and> tid t < nextId w" and
    dist: "distinct (map tid (pending w))" and
    own: "\<forall>t \<in> set (pending w). tField t \<noteq> ''__proto__'' \<longrightarrow>
            readTimer (debounceTimers w) (tField t) = Some (tid t)"
    by (simp_all add: consistent_def)
  have "\<forall>t \<in> set (pending (clearTimers w)). tField t = ''__proto__''"
  proof
    fix t assume t: "t \<in> set (pending (clearTimers w))"
    then have inP: "t \<in> set (pending w)"
      and notStored: "tid t \<notin> set (map snd (debounceTimers w))"
      by (simp_all add: clearTimers_parts)
    show "tField t = ''__proto__''"
    proof (rule ccontr)
      assume "tField t \<noteq> ''__proto__''"
      with own inP have "readTimer (debounceTimers w) (tField t) = Some (tid t)" by blast
      then have "tid t \<in> set (map snd (debounceTimers w))" by (rule stored_handle_listed)
      with notStored show False by contradiction
    qed
  qed
  with next0 ids dist show ?thesis
    by (simp add: consistent_def clearTimers_parts distinct_map_filter readTimer_def)
qed

lemma consistent_run: "consistent w \<Longrightarrow> consistent (run w events)"
  by (induction w events rule: run.induct)
    (simp_all add: consistent_validateField consistent_advance consistent_clearTimers)

lemma env_run: "(env (run w events))\<lparr>nowMs := x\<rparr> = (env w)\<lparr>nowMs := x\<rparr>"
  by (induction w events rule: run.induct)
    (simp_all add: validateField_parts advance_parts clearTimers_parts)

lemma run_append: "run w (xs @ ys) = run (run w xs) ys"
  by (induction w xs rule: run.induct) simp_all

subsection \<open>The invocations for one field\<close>

lemma callsFor_append: "callsFor f (xs @ ys) = callsFor f xs @ callsFor f ys"
  by (simp add: callsFor_def)

lemma callsFor_outcomes:
  "callsFor f (concat (map (outcome h) ts))
     = concat (map (outcome h) (filter (\<lambda>t. tField t = f) ts))"
  by (induction ts) (auto simp add: callsFor_def outcome_def split: sum.splits)

lemma callsFor_advance:
  "callsFor f (calls (advance w dt))
     = callsFor f (calls w)
       @ concat (map (outcome (env w))
           (sort_key due (filter (\<lambda>t. due t \<le> nowMs (env w) + int dt)
              (filter (\<lambda>t. tField t = f) (pending w)))))"
proof -
  have "filter (\<lambda>t. tField t = f)
          (sort_key due (filter (\<lambda>t. due t \<le> nowMs (env w) + int dt) (pending w)))
      = sort_key due (filter (\<lambda>t. due t \<le> nowMs (env w) + int dt)
          (filter (\<lambda>t. tField t = f) (pending w)))"
    by (simp add: filter_sort conj_commute)
  then show ?thesis
    by (simp add: advance_parts callsFor_append callsFor_outcomes)
qed

lemma pendingFor_advance:
  "filter (\<lambda>t. tField t = f) (pending (advance w dt))
     = filter (\<lambda>t. \<not> due t \<le> nowMs (env w) + int dt) (filter (\<lambda>t. tField t = f) (pending w))"
  by (simp add: advance_parts conj_commute)

lemma pendingFor_other_call:
  assumes "consistent w" and "g \<noteq> f"
  shows "filter (\<lambda>t. tField t = f) (pending (validateField w g v cb d))
     = filter (\<lambda>t. tField t = f) (pending w)"
proof -
  have "filter (\<lambda>t. tField t = f) (filter (\<lambda>t. tField t \<noteq> g) (pending w))
      = filter (\<lambda>t. tField t = f) (pending w)"
    using assms(2) by (auto intro: filter_cong)
  with assms(2) show ?thesis
    by (auto simp add: validateField_pending [OF assms(1)])
qed

lemma pendingFor_own_call:
  assumes "consistent w" and "f \<noteq> ''__proto__''"
  shows "filter (\<lambda>t. tField t = f) (pending (validateField w f v cb d))
     = [\<lparr>tid = nextId w, due = nowMs (env w) + timeoutOf d, tField = f, tValue = v,
          tCallback = cb\<rparr>]"
  using assms(2) by (simp add: validateField_pending [OF assms(1)])

text \<open>
  While no call is made for a field that has no pending timer, nothing is invoked for
  it.
\<close>

lemma quiet_without_timer:
  assumes "quietFor f later" and "consistent w"
    and "filter (\<lambda>t. tField t = f) (pending w) = []"
  shows "callsFor f (calls (run w later)) = callsFor f (calls w)"
  using assms
proof (induction w later rule: run.induct)
  case (1 w)
  then show ?case by simp
next
  case (2 w g v cb d rest)
  from "2.prems" have g: "g \<noteq> f" and q: "quietFor f rest" by simp_all
  have "callsFor f (calls (run (validateField w g v cb d) rest))
      = callsFor f (calls (validateField w g v cb d))"
    by (rule "2.IH" [OF q consistent_validateField [OF "2.prems"(2)]])
      (simp add: pendingFor_other_call [OF "2.prems"(2) g] "2.prems"(3))
  then show ?case by (simp add: validateField_parts)
next
  case (3 w rest)
  then show ?case by simp
next
  case (4 w dt rest)
  from "4.prems" have q: "quietFor f rest" by simp
  have "callsFor f (calls (run (advance w dt) rest)) = callsFor f (calls (advance w dt))"
    by (rule "4.IH" [OF q consistent_advance [OF "4.prems"(2)]])
      (simp add: pendingFor_advance "4.prems"(3))
  then show ?case by (simp add: callsFor_advance "4.prems"(3))
qed

text \<open>
  While no call is made for a field that has one pending timer, that timer runs once,
  when its due time is reached, and nothing else is invoked for the field.
\<close>

lemma quiet_with_timer:
  assumes "quietFor f later" and "consistent w"
    and "filter (\<lambda>t. tField t = f) (pending w) = [t]"
  shows "callsFor f (calls (run w later))
     = callsFor f (calls w)
       @ (if elapses (due t - nowMs (env w)) later then outcome (env w) t else [])"
  using assms
proof (induction w later rule: run.induct)
  case (1 w)
  then show ?case by simp
next
  case (2 w g v cb d rest)
  from "2.prems" have g: "g \<noteq> f" and q: "quietFor f rest" by simp_all
  have "callsFor f (calls (run (validateField w g v cb d) rest))
      = callsFor f (calls (validateField w g v cb d))
        @ (if elapses (due t - nowMs (env (validateField w g v cb d))) rest
           then outcome (env (validateField w g v cb d)) t else [])"
    by (rule "2.IH" [OF q consistent_validateField [OF "2.prems"(2)]])
      (simp add: pendingFor_other_call [OF "2.prems"(2) g] "2.prems"(3))
  then show ?case by (simp add: validateField_parts)
next
  case (3 w rest)
  then show ?case by simp
next
  case (4 w dt rest)
  from "4.prems" have q: "quietFor f rest" by simp
  note c = consistent_advance [OF "4.prems"(2), of dt]
  show ?case
  proof (cases "due t \<le> nowMs (env w) + int dt")
    case True
    then have gone: "filter (\<lambda>t. tField t = f) (pending (advance w dt)) = []"
      by (simp add: pendingFor_advance "4.prems"(3))
    have "callsFor f (calls (run (advance w dt) rest)) = callsFor f (calls (advance w dt))"
      by (rule quiet_without_timer [OF q c gone])
    with True show ?thesis
      by (simp add: callsFor_advance "4.prems"(3))
  next
    case False
    then have still: "filter (\<lambda>t. tField t = f) (pending (advance w dt)) = [t]"
      by (simp add: pendingFor_advance "4.prems"(3))
    have "callsFor f (calls (run (advance w dt) rest))
        = callsFor f (calls (advance w dt))
          @ (if elapses (due t - nowMs (env (advance w dt))) rest
             then outcome (env (advance w dt)) t else [])"
      by (rule "4.IH" [OF q c still])
    moreover have "due t - nowMs (env (advance w dt)) = due t - nowMs (env w) - int dt"
      by (simp add: advance_parts)
    moreover have "outcome (env (advance w dt)) t = outcome (env w) t"
      by (simp add: advance_parts outcome_nowMs)
    ultimately show ?thesis
      using False
      by (simp add: callsFor_advance "4.prems"(3))
  qed
qed

text \<open>
  After a call for a field, in any state a validator can reach and whatever was
  pending for that field: as long as no further call is made for the field and
  \<open>clearTimers\<close> is not called, its callback is invoked once, when the delay has passed, with the result for the value of
  this call, and nothing else is invoked for the field.
\<close>

lemma after_a_call:
  assumes "f \<noteq> ''__proto__''" and "quietFor f later" and "consistent w"
  shows "callsFor f (calls (run (validateField w f v cb d) later))
     = callsFor f (calls w)
       @ (if elapses (timeoutOf d) later
          then (case dispatch ((env w)\<lparr>nowMs := nowMs (env w) + timeoutOf d\<rparr>) f v of
                  Inl e \<Rightarrow> []
                | Inr r \<Rightarrow> [(cb, f, r)])
          else [])"
  using quiet_with_timer [OF assms(2) consistent_validateField [OF assms(3)]
      pendingFor_own_call [OF assms(3,1)], of v cb d]
  by (simp add: validateField_parts outcome_def split: sum.split)

text \<open>
  C8, as stated, fails: when the most recent value makes the field's validator raise
  (here the number 5 as a title), the exception leaves the timer's closure before the
  callback is reached, so after two calls within the window the callback has been
  invoked not once but never.
\<close>

theorem no_callback_when_validator_raises:
  "calls (run (newRealTimeValidator hostUtc)
      [Call ''title'' (JStr ''a'') 7 300, Wait 100, Call ''title'' (JNum (Fin 5)) 7 300,
       Wait 300]) = []"
  by code_simp

text \<open>
  For the field name \<open>__proto__\<close> the handle is never stored, so the second call does
  not cancel the first timer and both fire.
\<close>

lemma proto_is_not_debounced:
  "calls (run (newRealTimeValidator hostUtc)
      [Call ''__proto__'' (JStr ''a'') 7 300, Wait 100, Call ''__proto__'' (JStr ''ab'') 7 300,
       Wait 300])
   = [(7, ''__proto__'', \<lparr>isValid = True, errors = [], sanitizedValue = None\<rparr>),
      (7, ''__proto__'', \<lparr>isValid = True, errors = [], sanitizedValue = None\<rparr>)]"
  by code_simp

text \<open>
  Calls for two fields: the second call for \<open>title\<close> cancels the first one and leaves
  the timer of \<open>description\<close> alone.
\<close>

lemma title_description_title:
  "calls (run (newRealTimeValidator hostUtc)
      [Call ''title'' (JStr ''a'') 7 300, Wait 100, Call ''description'' (JStr ''b'') 8 300,
       Wait 100, Call ''title'' (JStr ''ab'') 7 300, Wait 300])
   = [(8, ''description'', \<lparr>isValid = True, errors = [], sanitizedValue = Some (JStr ''b'')\<rparr>),
      (7, ''title'', \<lparr>isValid = True, errors = [], sanitizedValue = Some (JStr ''ab'')\<rparr>)]"
  by code_simp

text \<open>\<open>clearTimers\<close> cancels what is pending: nothing is invoked afterwards.\<close>

lemma clearTimers_cancels:
  "calls (run (newRealTimeValidator hostUtc)
      [Call ''title'' (JStr ''a'') 7 300, Wait 100, ClearTimers, Wait 300]) = []"
  by code_simp

lemma env_reached:
  "(env (run (newRealTimeValidator h) history))\<lparr>nowMs := x\<rparr> = h\<lparr>nowMs := x\<rparr>"
  using env_run [where w = "newRealTimeValidator h" and events = history and x = x]
  by (simp add: newRealTimeValidator_def)

lemma after_a_call_reached:
  assumes "f \<noteq> ''__proto__''" and "quietFor f later"
  shows "callsFor f (calls (run (newRealTimeValidator h) (history @ Call f v cb d # later)))
     = callsFor f (calls (run (newRealTimeValidator h) history))
       @ (if elapses (timeoutOf d) later
          then (case dispatch (h\<lparr>nowMs := nowMs (env (run (newRealTimeValidator h) history))
                                            + timeoutOf d\<rparr>) f v of
                  Inl e \<Rightarrow> []
                | Inr r \<Rightarrow> [(cb, f, r)])
          else [])"
  using after_a_call [OF assms consistent_run [OF consistent_new [of h], of history], of v cb d]
  by (simp add: run_append env_reached)

lemma superseded_call:
  assumes "f \<noteq> ''__proto__''" and "quietFor f between"
    and "\<not> elapses (timeoutOf d1) between" and "quietFor f later"
  shows "callsFor f (calls (run (newRealTimeValidator h)
            (history @ Call f v1 cb1 d1 # between @ Call f v2 cb2 d2 # later)))
     = callsFor f (calls (run (newRealTimeValidator h) history))
       @ (if elapses (timeoutOf d2) later
          then (case dispatch (h\<lparr>nowMs := nowMs (env (run (newRealTimeValidator h)
                                   (history @ Call f v1 cb1 d1 # between))) + timeoutOf d2\<rparr>) f v2 of
                  Inl e \<Rightarrow> []
                | Inr r \<Rightarrow> [(cb2, f, r)])
          else [])"
proof -
  have first: "callsFor f (calls (run (newRealTimeValidator h)
            (history @ Call f v1 cb1 d1 # between)))
     = callsFor f (calls (run (newRealTimeValidator h) history))"
    using after_a_call_reached [OF assms(1,2), of h history v1 cb1 d1] assms(3) by simp
  have "callsFor f (calls (run (newRealTimeValidator h)
            ((history @ Call f v1 cb1 d1 # between) @ Call f v2 cb2 d2 # later)))
     = callsFor f (calls (run (newRealTimeValidator h) (history @ Call f v1 cb1 d1 # between)))
       @ (if elapses (timeoutOf d2) later
          then (case dispatch (h\<lparr>nowMs := nowMs (env (run (newRealTimeValidator h)
                                   (history @ Call f v1 cb1 d1 # between))) + timeoutOf d2\<rparr>) f v2 of
                  Inl e \<Rightarrow> []
                | Inr r \<Rightarrow> [(cb2, f, r)])
          else [])"
    by (rule after_a_call_reached [OF assms(1,4)])
  with first show ?thesis by simp
qed

lemma example_histories:
  "calls (run (newRealTimeValidator hostUtc) []) = []
   \<and> calls (run (newRealTimeValidator hostUtc) [Call ''title'' (JStr ''a'') 7 300, Wait 100]) = []
   \<and> nowMs (env (run (newRealTimeValidator hostUtc)
        [Call ''title'' (JStr ''a'') 7 300, Wait 100])) = 1704110400100"
  by code_simp

text \<open>
  C8, amended. For every field name other than \<open>__proto__\<close>, in whatever state the
  validator is after any history of calls of \<open>validateField\<close> and \<open>clearTimers\<close> and
  of waiting: once \<open>validateField\<close> is called for the field, and for as long as no
  further call is made for that field and \<open>clearTimers\<close> is not called (calls for
  other fields may come in between), the callback of this call is invoked
  exactly once, when the delay as the browser reads it has passed, with the field's
  validation result for the value of this call, provided the validator returns a
  result on that value; when the validator raises on it, nothing is invoked; and
  nothing else is invoked for the field, whatever was pending for it before. In
  particular, of two calls for the field of which the second comes before the first
  one's delay has passed, the first never leads to an invocation and the second to
  exactly one.
\<close>

theorem debounce_per_field:
  "(fieldName \<noteq> ''__proto__'' \<and> quietFor fieldName later \<longrightarrow>
      callsFor fieldName (calls (run (newRealTimeValidator h)
          (history @ Call fieldName val callback delay # later)))
        = callsFor fieldName (calls (run (newRealTimeValidator h) history))
          @ (if elapses (timeoutOf delay) later
             then (case dispatch (h\<lparr>nowMs := nowMs (env (run (newRealTimeValidator h) history))
                                               + timeoutOf delay\<rparr>) fieldName val of
                     Inl e \<Rightarrow> []
                   | Inr r \<Rightarrow> [(callback, fieldName, r)])
             else []))
   \<and> (f \<noteq> ''__proto__'' \<and> quietFor f between \<and> \<not> elapses (timeoutOf delay1) between
       \<and> quietFor f later' \<longrightarrow>
      callsFor f (calls (run (newRealTimeValidator h')
          (history' @ Call f val1 callback1 delay1 # between
             @ Call f val2 callback2 delay2 # later')))
        = callsFor f (calls (run (newRealTimeValidator h') history'))
          @ (if elapses (timeoutOf delay2) later'
             then (case dispatch (h'\<lparr>nowMs := nowMs (env (run (newRealTimeValidator h')
                        (history' @ Call f val1 callback1 delay1 # between)))
                        + timeoutOf delay2\<rparr>) f val2 of
                     Inl e \<Rightarrow> []
                   | Inr r \<Rightarrow> [(callback2, f, r)])
             else []))"
  using after_a_call_reached [of fieldName later h history val callback delay]
    superseded_call [of f between delay1 later' h' history' val1 callback1 val2 callback2 delay2]
  by blast

theorem debounce_per_field_witness:
  "''description'' \<noteq> ''__proto__''
   \<and> quietFor ''description'' [Wait 100, Call ''title'' (JStr ''ab'') 7 300, Wait 300]
   \<and> callsFor ''description'' (calls (run (newRealTimeValidator hostUtc)
        [Call ''title'' (JStr ''a'') 7 300, Wait 100, Call ''description'' (JStr ''b'') 8 300,
         Wait 100, Call ''title'' (JStr ''ab'') 7 300, Wait 300]))
     = [(8, ''description'',
         \<lparr>isValid = True, errors = [], sanitizedValue = Some (JStr ''b'')\<rparr>)]
   \<and> ''title'' \<noteq> ''__proto__''
   \<and> quietFor ''title'' [Wait 100] \<and> \<not> elapses (timeoutOf 300) [Wait 100]
   \<and> quietFor ''title'' [Wait 300]
   \<and> callsFor ''title'' (calls (run (newRealTimeValidator hostUtc)
        [Call ''title'' (JStr ''a'') 7 300, Wait 100, Call ''title'' (JStr ''ab'') 7 300,
         Wait 300]))
     = [(7, ''title'',
         \<lparr>isValid = True, errors = [], sanitizedValue = Some (JStr ''ab'')\<rparr>)]"
  using debounce_per_field [of "''description''"
      "[Wait 100, Call ''title'' (JStr ''ab'') 7 300, Wait 300]" hostUtc
      "[Call ''title'' (JStr ''a'') 7 300, Wait 100]" "JStr ''b''" 8 300
      "''title''" "[Wait 100]" 300 "[Wait 300]" hostUtc "[]" "JStr ''a''" 7 "JStr ''ab''" 7 300]
    example_histories
  by (simp add: timeoutOf_def callsFor_def dispatch_def titleValidator_def
      descriptionValidator_def TitleValidationStrategy_validate_def
      DescriptionValidationStrategy_validate_def titleChecks_def descriptionChecks_def
      trim_def isWhiteSpace_def sanitize_def)

end
